theory Spec2Isabelle
  imports Complex_Main "HOL-Library.Log_Nat"
begin

section \<open>JavaScript numbers and strings\<close>

text \<open>
  A JavaScript number is an IEEE-754 double. A finite double is modelled by its exact
  rational value, and every arithmetic operation of the source is the exact operation
  followed by rounding to the nearest double, ties to even (\<open>fl\<close>): 53 significant
  bits, least exponent \<open>-1074\<close>. Overflow to \<open>Infinity\<close> is not modelled; no value
  computed by the dashboard comes near the largest double.
\<close>

type_synonym number = rat

text \<open>
  \<open>rne\<close> rounds to the nearest integer, a tie going to the even one;
  \<open>ilog2 x\<close> is the exponent of the binade of a positive \<open>x\<close>, with
  \<open>2 ^ ilog2 x \<le> x < 2 ^ (ilog2 x + 1)\<close>; \<open>fl\<close> rounds to a multiple of the unit
  in the last place of that binade, or of \<open>2 ^ -1074\<close> below the normal range.
\<close>

definition rne :: "rat \<Rightarrow> int" where
  "rne x = (let f = \<lfloor>x\<rfloor>; d = x - of_int f in
     if d < 1/2 then f else if 1/2 < d then f + 1 else if even f then f else f + 1)"

definition ilog2 :: "rat \<Rightarrow> int" where
  "ilog2 x = (case quotient_of x of (p, q) \<Rightarrow>
     let d = bitlen p - bitlen q in if 2 powi d \<le> x then d else d - 1)"

definition fl :: "rat \<Rightarrow> number" where
  "fl x = (if x = 0 then 0 else
     let e = max (ilog2 \<bar>x\<bar>) (- 1022); u = 2 powi (e - 52)
     in of_int (rne (x / u)) * u)"

definition fadd :: "number \<Rightarrow> number \<Rightarrow> number" where
  "fadd a b = fl (a + b)"

definition fsub :: "number \<Rightarrow> number \<Rightarrow> number" where
  "fsub a b = fl (a - b)"

definition fmul :: "number \<Rightarrow> number \<Rightarrow> number" where
  "fmul a b = fl (a * b)"

definition fdiv :: "number \<Rightarrow> number \<Rightarrow> number" where
  "fdiv a b = fl (a / b)"

text \<open>A decimal literal of the source denotes the double nearest to it.\<close>

definition lit :: "rat \<Rightarrow> number" where
  "lit x = fl x"

text \<open>Decimal digits of a natural number, as \<open>Number.prototype.toString\<close> prints an integer.\<close>

function digits :: "nat \<Rightarrow> string" where
  "digits n = (if n < 10 then [char_of (48 + n)]
               else digits (n div 10) @ [char_of (48 + n mod 10)])"
  by pat_completeness auto
termination
  by (relation "measure id") auto

declare digits.simps [simp del]

text \<open>
  \<open>Number.prototype.toFixed(f)\<close> for a finite number below \<open>10^21\<close> in magnitude:
  the integer \<open>n\<close> nearest to \<open>x * 10^f\<close> (the larger one on a tie), printed with
  \<open>f\<close> digits after the point.
\<close>

definition toFixed :: "nat \<Rightarrow> number \<Rightarrow> string" where
  "toFixed f x =
     (let s = (if x < 0 then ''-'' else '''');
          n = nat \<lfloor>\<bar>x\<bar> * 10 ^ f + 1/2\<rfloor>;
          m = digits n;
          mz = replicate (f + 1 - length m) (CHR ''0'') @ m;
          k = length mz
      in s @ (if f = 0 then m else take (k - f) mz @ ''.'' @ drop (k - f) mz))"

text \<open>\<open>String.prototype.toUpperCase\<close> on ASCII text.\<close>

definition upperChar :: "char \<Rightarrow> char" where
  "upperChar c = (let n = (of_char c :: nat) in if 97 \<le> n \<and> n \<le> 122 then char_of (n - 32) else c)"

definition toUpperCase :: "string \<Rightarrow> string" where
  "toUpperCase s = map upperChar s"

text \<open>
  The errors the dashboard can meet: a \<open>TypeError\<close> of the language, the
  \<open>SyntaxError\<close> of a body that is not JSON, and the rejection of a fetch that did
  not reach the service.
\<close>

datatype js_error = TypeError | SyntaxError | NetworkError

section \<open>CommandConsole: data model\<close>

record TelemetryPoint =
  time :: string
  vibration :: number
  temp :: number
  power :: number

datatype LogType = TInfo | TWarning | TCritical

record LogEntry =
  entry_id :: string
  timestamp :: string
  message :: string
  entry_type :: LogType

datatype SystemStatus = Nominal | Degraded | Critical

record Console =
  telemetry :: "TelemetryPoint list"
  logs :: "LogEntry list"
  isAiAnalyzing :: bool
  aiInsight :: "string option"
  systemStatus :: SystemStatus

text \<open>
  The initial state of the component. \<open>rnd i\<close> gives the three values that
  \<open>Math.random()\<close> returns while the \<open>i\<close>-th initial point is built.
\<close>

definition initialTelemetry :: "(nat \<Rightarrow> number \<times> number \<times> number) \<Rightarrow> TelemetryPoint list" where
  "initialTelemetry rnd =
     map (\<lambda>i. case rnd i of (rv, rt, rp) \<Rightarrow>
            \<lparr>time = digits i @ '':00'',
             vibration = fadd 18 (fmul rv 4),
             temp = fadd 42 (fmul rt 2),
             power = fadd 11 (fmul rp 1)\<rparr>) [0..<40]"

definition initialConsole :: "(nat \<Rightarrow> number \<times> number \<times> number) \<Rightarrow> Console" where
  "initialConsole rnd =
     \<lparr>telemetry = initialTelemetry rnd, logs = [], isAiAnalyzing = False,
      aiInsight = None, systemStatus = Nominal\<rparr>"

section \<open>CommandConsole: the tick, the log and the operator action\<close>

text \<open>
  What one tick reads from outside: the clock, the four \<open>Math.random()\<close> values of
  the interval callback, and the identifier and clock string \<open>addLog\<close> draws.
\<close>

record TickEnv =
  nextTime :: string
  rAnomaly :: number
  rVib :: number
  rTemp :: number
  rPower :: number
  logId :: string
  logTimestamp :: string

definition addLog :: "string \<Rightarrow> string \<Rightarrow> LogType \<Rightarrow> string \<Rightarrow> LogEntry list \<Rightarrow> LogEntry list" where
  "addLog newId now ty msg prev =
     take 15 (\<lparr>entry_id = newId, timestamp = now, message = msg, entry_type = ty\<rparr> # prev)"

definition isAnomaly :: "TickEnv \<Rightarrow> bool" where
  "isAnomaly env = (lit (98/100) < rAnomaly env)"

definition newPoint :: "TickEnv \<Rightarrow> TelemetryPoint \<Rightarrow> TelemetryPoint" where
  "newPoint env lastPoint =
     \<lparr>time = nextTime env,
      vibration = (if isAnomaly env then fadd 55 (fmul (rVib env) 25)
                   else fadd 20 (fmul (rVib env) 4)),
      temp = fadd (temp lastPoint) (fsub (rTemp env) (lit (45/100))),
      power = fadd 12 (fmul (rPower env) (lit (5/10)))\<rparr>"

definition anomalyMessage :: "TelemetryPoint \<Rightarrow> string" where
  "anomalyMessage p =
     ''Anomaly: Spindle vibration threshold exceeded ('' @ toFixed 1 (vibration p) @ ''Hz)''"

text \<open>
  The interval callback, run once per tick. \<open>prev[prev.length - 1]\<close> is
  \<open>undefined\<close> on an empty buffer and reading \<open>last.temp\<close> then throws, before
  anything is logged or set. The callback reads \<open>systemStatus\<close> from the closure of
  the effect; the effect depends on \<open>systemStatus\<close> and registers the interval anew
  whenever it changes, so the value a tick reads is the status of the state it runs in.
\<close>

definition tick :: "TickEnv \<Rightarrow> Console \<Rightarrow> js_error + Console" where
  "tick env s =
     (case telemetry s of
        [] \<Rightarrow> Inl TypeError
      | _ # _ \<Rightarrow>
          let p = newPoint env (last (telemetry s));
              s1 = (if isAnomaly env \<and> systemStatus s = Nominal
                    then s\<lparr>logs := addLog (logId env) (logTimestamp env) TCritical
                                      (anomalyMessage p) (logs s),
                           systemStatus := Degraded\<rparr>
                    else s)
          in Inr (s1\<lparr>telemetry := tl (telemetry s) @ [p]\<rparr>))"

text \<open>The "Recalibrate Baseline" button.\<close>

definition recalibrate :: "Console \<Rightarrow> Console" where
  "recalibrate s = s\<lparr>systemStatus := Nominal\<rparr>"

section \<open>CommandConsole: the prediction request\<close>

text \<open>A parsed JSON document, as \<open>response.json()\<close> delivers it.\<close>

datatype json =
  JNull
| JBool bool
| JNum number
| JStr string
| JArr "json list"
| JObj "(string \<times> json) list"

text \<open>
  Reading a property \<open>v.k\<close>, for the keys the console reads (none of them is
  inherited from a prototype): \<open>null\<close> throws, an object gives its own property (the
  last one, where the document repeats a key), anything else gives \<open>undefined\<close>,
  written \<open>None\<close>.
\<close>

fun getProp :: "json \<Rightarrow> string \<Rightarrow> js_error + json option" where
  "getProp JNull k = Inl TypeError"
| "getProp (JObj kvs) k = Inr (map_of (rev kvs) k)"
| "getProp v k = Inr None"

text \<open>
  \<open>v.toUpperCase()\<close>: only a string has the method; on \<open>undefined\<close> and
  \<open>null\<close> the property read throws, on every other JSON value the call does.
\<close>

fun callToUpperCase :: "json option \<Rightarrow> js_error + string" where
  "callToUpperCase (Some (JStr s)) = Inr (toUpperCase s)"
| "callToUpperCase v = Inl TypeError"

fun joinWith :: "string \<Rightarrow> string list \<Rightarrow> string" where
  "joinWith sep [] = []"
| "joinWith sep [x] = x"
| "joinWith sep (x # y # ys) = x @ sep @ joinWith sep (y # ys)"

text \<open>
  The string conversion of a template literal. \<open>ns\<close> is \<open>Number::toString\<close>.
  An array joins its elements with commas, \<open>null\<close> elements printing as the empty
  string. A plain object prints as \<open>[object Object]\<close>, unless the document gave it a
  property \<open>toString\<close> of its own: that is not callable, \<open>valueOf\<close> returns the
  object itself, and the conversion throws (\<open>None\<close>).
\<close>

fun toStringJ :: "(number \<Rightarrow> string) \<Rightarrow> json \<Rightarrow> string option" where
  "toStringJ ns JNull = Some ''null''"
| "toStringJ ns (JBool b) = Some (if b then ''true'' else ''false'')"
| "toStringJ ns (JNum n) = Some (ns n)"
| "toStringJ ns (JStr s) = Some s"
| "toStringJ ns (JArr xs) =
     map_option (joinWith '','')
       (those (map2 (\<lambda>x r. if x = JNull then Some [] else r) xs (map (toStringJ ns) xs)))"
| "toStringJ ns (JObj kvs) =
     (if ''toString'' \<in> fst ` set kvs then None else Some ''[object Object]'')"

definition toStringV :: "(number \<Rightarrow> string) \<Rightarrow> json option \<Rightarrow> js_error + string" where
  "toStringV ns v =
     (case v of
        None \<Rightarrow> Inr ''undefined''
      | Some j \<Rightarrow> (case toStringJ ns j of None \<Rightarrow> Inl TypeError | Some t \<Rightarrow> Inr t))"

fun truthy :: "json option \<Rightarrow> bool" where
  "truthy None = False"
| "truthy (Some JNull) = False"
| "truthy (Some (JBool b)) = b"
| "truthy (Some (JNum n)) = (n \<noteq> 0)"
| "truthy (Some (JStr s)) = (s \<noteq> [])"
| "truthy (Some (JArr xs)) = True"
| "truthy (Some (JObj kvs)) = True"

text \<open>\<open>data.explanation?.natural_language || data.recommended_action\<close>\<close>

definition explanationText :: "json \<Rightarrow> js_error + json option" where
  "explanationText data =
     (case getProp data ''explanation'' of
        Inl e \<Rightarrow> Inl e
      | Inr ex \<Rightarrow>
          (case (case ex of None \<Rightarrow> Inr None | Some JNull \<Rightarrow> Inr None
                 | Some v \<Rightarrow> getProp v ''natural_language'') of
             Inl e \<Rightarrow> Inl e
           | Inr nl \<Rightarrow> if truthy nl then Inr nl else getProp data ''recommended_action''))"

text \<open>The template literal that builds the insight, evaluated left to right.\<close>

definition insightOf :: "(number \<Rightarrow> string) \<Rightarrow> json \<Rightarrow> js_error + string" where
  "insightOf ns data =
     (case getProp data ''risk_level'' of
        Inl e \<Rightarrow> Inl e
      | Inr rl \<Rightarrow>
     (case callToUpperCase rl of
        Inl e \<Rightarrow> Inl e
      | Inr level \<Rightarrow>
     (case getProp data ''risk_score'' of
        Inl e \<Rightarrow> Inl e
      | Inr rs \<Rightarrow>
     (case toStringV ns rs of
        Inl e \<Rightarrow> Inl e
      | Inr score \<Rightarrow>
     (case explanationText data of
        Inl e \<Rightarrow> Inl e
      | Inr ex \<Rightarrow>
     (case toStringV ns ex of
        Inl e \<Rightarrow> Inl e
      | Inr txt \<Rightarrow> Inr (''Risk Level: '' @ level @ '' ('' @ score @ ''%). '' @ txt)))))))"

definition MACHINE_ID :: string where
  "MACHINE_ID = ''CNC-ALPHA-921''"

record Features =
  f_vibration_rms :: number
  f_vibration_peak :: number
  f_vibration_kurtosis :: number
  f_temperature :: number
  f_temp_rate_of_change :: number
  f_power_consumption :: number
  f_power_deviation :: number
  f_time_since_maintenance :: number
  f_cumulative_cycles :: number

record PredictRequest =
  machine_id :: string
  features :: Features

definition buildRequest :: "SystemStatus \<Rightarrow> TelemetryPoint \<Rightarrow> PredictRequest" where
  "buildRequest st latestTelemetry =
     \<lparr>machine_id = MACHINE_ID,
      features =
        \<lparr>f_vibration_rms = vibration latestTelemetry,
         f_vibration_peak = fmul (vibration latestTelemetry) (lit (16/10)),
         f_vibration_kurtosis = (if st = Degraded then lit (52/10) else lit (32/10)),
         f_temperature = temp latestTelemetry,
         f_temp_rate_of_change = lit (1/10),
         f_power_consumption = power latestTelemetry,
         f_power_deviation = fmul (fdiv (fsub (power latestTelemetry) 12) 12) 100,
         f_time_since_maintenance = 280,
         f_cumulative_cycles = 125000\<rparr>\<rparr>"

text \<open>
  The network as the console sees it: the requests sent so far, and what each coming
  \<open>fetch\<close> will meet. A fetch either rejects, or resolves to a response whose body
  \<open>response.json()\<close> rejects, or resolves to a parsed document.
\<close>

datatype FetchOutcome = FetchRejected | JsonRejected | JsonBody json

record Net =
  sent :: "PredictRequest list"
  pending :: "FetchOutcome list"

definition fetchPredict :: "PredictRequest \<Rightarrow> Net \<Rightarrow> FetchOutcome \<times> Net" where
  "fetchPredict req net =
     (case pending net of
        [] \<Rightarrow> (FetchRejected, net\<lparr>sent := sent net @ [req]\<rparr>)
      | out # rest \<Rightarrow> (out, \<lparr>sent = sent net @ [req], pending = rest\<rparr>))"

definition fallbackText :: string where
  "fallbackText = ''AI Uplink Failed. Switching to manual override.''"

text \<open>
  The body of the \<open>try\<close> block: everything that can throw comes before its one
  state update, \<open>setAiInsight(insight)\<close>.
\<close>

definition analysisTry ::
  "(number \<Rightarrow> string) \<Rightarrow> Console \<times> Net \<Rightarrow> (js_error + Console) \<times> Net" where
  "analysisTry ns sn =
     (case sn of (s, net) \<Rightarrow>
       (case telemetry s of
          [] \<Rightarrow> (Inl TypeError, net)
        | _ # _ \<Rightarrow>
            (case fetchPredict (buildRequest (systemStatus s) (last (telemetry s))) net of
               (out, net') \<Rightarrow>
                 (case out of
                    FetchRejected \<Rightarrow> (Inl NetworkError, net')
                  | JsonRejected \<Rightarrow> (Inl SyntaxError, net')
                  | JsonBody data \<Rightarrow>
                      (case insightOf ns data of
                         Inl e \<Rightarrow> (Inl e, net')
                       | Inr insight \<Rightarrow> (Inr (s\<lparr>aiInsight := Some insight\<rparr>), net'))))))"

definition analysisCatch :: "js_error \<Rightarrow> Console \<Rightarrow> js_error + Console" where
  "analysisCatch e s = Inr (s\<lparr>aiInsight := Some fallbackText\<rparr>)"

definition analysisFinally :: "Console \<Rightarrow> js_error + Console" where
  "analysisFinally s = Inr (s\<lparr>isAiAnalyzing := False\<rparr>)"

text \<open>
  \<open>try { ... } catch (error) { ... } finally { ... }\<close>: the handler runs on the state
  the block started from (the block changes the state only as its last step), the
  finaliser runs in every case, and an error the handler or the finaliser raised would
  leave the statement.
\<close>

definition tryCatchFinally ::
  "(js_error + Console) \<Rightarrow> (js_error \<Rightarrow> Console \<Rightarrow> js_error + Console) \<Rightarrow>
   (Console \<Rightarrow> js_error + Console) \<Rightarrow> Console \<Rightarrow> js_error + Console" where
  "tryCatchFinally body handler finaliser s0 =
     (case (case body of Inr s \<Rightarrow> Inr s | Inl e \<Rightarrow> handler e s0) of
        Inr s \<Rightarrow> finaliser s
      | Inl e \<Rightarrow> (case finaliser s0 of Inr s \<Rightarrow> Inl e | Inl e' \<Rightarrow> Inl e'))"

text \<open>
  \<open>runAiAnalysis\<close>, from the click to the end of the \<open>finally\<close> block, as one
  step: it reads \<open>telemetry\<close> and \<open>systemStatus\<close> as they are at the click and
  writes only \<open>isAiAnalyzing\<close> and \<open>aiInsight\<close>, which no tick reads or writes.
\<close>

definition runAiAnalysis ::
  "(number \<Rightarrow> string) \<Rightarrow> Console \<times> Net \<Rightarrow> (js_error + Console) \<times> Net" where
  "runAiAnalysis ns sn =
     (case sn of (s, net) \<Rightarrow>
       let s0 = s\<lparr>isAiAnalyzing := True, aiInsight := None\<rparr>
       in (case analysisTry ns (s0, net) of
             (body, net') \<Rightarrow> (tryCatchFinally body analysisCatch analysisFinally s0, net')))"

section \<open>CommandConsole: runs\<close>

text \<open>
  The operations of the console: a tick of the interval, the operator's recalibration,
  and a forensic-brief request together with what the network will answer.
\<close>

datatype ConsoleEvent =
  Tick TickEnv
| Recalibrate
| Analyze "number \<Rightarrow> string" "FetchOutcome list"

fun step :: "ConsoleEvent \<Rightarrow> Console \<Rightarrow> js_error + Console" where
  "step (Tick env) s = tick env s"
| "step Recalibrate s = Inr (recalibrate s)"
| "step (Analyze ns outs) s = fst (runAiAnalysis ns (s, \<lparr>sent = [], pending = outs\<rparr>))"

fun run :: "Console \<Rightarrow> ConsoleEvent list \<Rightarrow> js_error + Console" where
  "run s [] = Inr s"
| "run s (ev # evs) = (case step ev s of Inl e \<Rightarrow> Inl e | Inr s' \<Rightarrow> run s' evs)"

section \<open>KernelLogs: the full log view\<close>

datatype LogLevel = LDebug | LInfo | LWarning | LError | LCritical

text \<open>
  An entry of the log view. The timestamp is kept as the instant (milliseconds since the
  epoch) whose \<open>toISOString()\<close> the entry carries. The fields a tick picks from a
  table by a computed index are optional: an index outside the table gives
  \<open>undefined\<close>.
\<close>

record KernelLogEntry =
  k_id :: string
  k_timestamp :: int
  k_level :: "LogLevel option"
  k_source :: "string option"
  k_message :: "string option"

text \<open>
  \<open>clock i\<close> is what the \<open>i\<close>-th reading of the clock returned while the module
  was loaded.
\<close>

definition MOCK_LOGS :: "(nat \<Rightarrow> int) \<Rightarrow> KernelLogEntry list" where
  "MOCK_LOGS clock =
     [\<lparr>k_id = ''1'', k_timestamp = clock 0, k_level = Some LInfo,
       k_source = Some ''SYSTEM'', k_message = Some ''Telemetry ingestion pipeline healthy''\<rparr>,
      \<lparr>k_id = ''2'', k_timestamp = clock 1 - 5000, k_level = Some LDebug,
       k_source = Some ''ML-ENGINE'', k_message = Some ''Model inference completed in 45ms''\<rparr>,
      \<lparr>k_id = ''3'', k_timestamp = clock 2 - 10000, k_level = Some LWarning,
       k_source = Some ''SENSOR-GW'',
       k_message = Some ''CNC-ALPHA-921: Sensor reading delay detected (>100ms)''\<rparr>,
      \<lparr>k_id = ''4'', k_timestamp = clock 3 - 15000, k_level = Some LInfo,
       k_source = Some ''API'', k_message = Some ''Health check passed for all endpoints''\<rparr>,
      \<lparr>k_id = ''5'', k_timestamp = clock 4 - 20000, k_level = Some LError,
       k_source = Some ''DATABASE'', k_message = Some ''Connection pool exhausted, scaling up''\<rparr>,
      \<lparr>k_id = ''6'', k_timestamp = clock 5 - 25000, k_level = Some LInfo,
       k_source = Some ''SCHEDULER'', k_message = Some ''Cron job executed: feature_aggregation''\<rparr>,
      \<lparr>k_id = ''7'', k_timestamp = clock 6 - 30000, k_level = Some LCritical,
       k_source = Some ''ALERT'',
       k_message = Some ''Anomaly detected on CNC-BETA-102, prediction confidence 0.92''\<rparr>,
      \<lparr>k_id = ''8'', k_timestamp = clock 7 - 35000, k_level = Some LInfo,
       k_source = Some ''AUTH'',
       k_message = Some ''User session refreshed: operator@horizonops.com''\<rparr>,
      \<lparr>k_id = ''9'', k_timestamp = clock 8 - 40000, k_level = Some LDebug,
       k_source = Some ''CACHE'', k_message = Some ''Redis cache hit ratio: 94.2%''\<rparr>,
      \<lparr>k_id = ''10'', k_timestamp = clock 9 - 45000, k_level = Some LWarning,
       k_source = Some ''RESOURCE'',
       k_message = Some ''Memory usage approaching threshold (82%)''\<rparr>]"

definition sources :: "string list" where
  "sources = [''SYSTEM'', ''ML-ENGINE'', ''SENSOR-GW'', ''API'', ''DATABASE'', ''SCHEDULER'',
              ''AUTH'', ''CACHE'']"

definition levels :: "LogLevel list" where
  "levels = [LDebug, LInfo, LInfo, LInfo, LWarning, LError]"

definition messages :: "string list" where
  "messages = [''Heartbeat check completed'',
               ''Feature vector computed for CNC-ALPHA-921'',
               ''WebSocket connection established'',
               ''Batch prediction completed for 8 machines'',
               ''Cache invalidation triggered'',
               ''Metric export to Prometheus successful'']"

text \<open>\<open>xs[Math.floor(r * xs.length)]\<close>\<close>

definition pick :: "'a list \<Rightarrow> number \<Rightarrow> 'a option" where
  "pick xs r =
     (let i = \<lfloor>fmul r (of_nat (length xs))\<rfloor>
      in if 0 \<le> i \<and> nat i < length xs then Some (xs ! nat i) else None)"

definition showInt :: "int \<Rightarrow> string" where
  "showInt i = (if i < 0 then ''-'' @ digits (nat (- i)) else digits (nat i))"

record KernelTickEnv =
  k_now :: int
  k_date :: int
  rLevel :: number
  rSource :: number
  rMessage :: number

definition newLog :: "KernelTickEnv \<Rightarrow> KernelLogEntry" where
  "newLog env =
     \<lparr>k_id = showInt (k_now env), k_timestamp = k_date env,
      k_level = pick levels (rLevel env),
      k_source = pick sources (rSource env),
      k_message = pick messages (rMessage env)\<rparr>"

definition kernelLogsTick :: "KernelTickEnv \<Rightarrow> KernelLogEntry list \<Rightarrow> KernelLogEntry list" where
  "kernelLogsTick env prev = take 100 (newLog env # prev)"

text \<open>The trash button of the log view: \<open>setLogs([])\<close>.\<close>

definition clearLogs :: "KernelLogEntry list \<Rightarrow> KernelLogEntry list" where
  "clearLogs prev = []"

datatype KernelLogsEvent = NewLog KernelTickEnv | ClearLogs

fun kernelLogsStep :: "KernelLogsEvent \<Rightarrow> KernelLogEntry list \<Rightarrow> KernelLogEntry list" where
  "kernelLogsStep (NewLog env) l = kernelLogsTick env l"
| "kernelLogsStep ClearLogs l = clearLogs l"

fun kernelLogsRun :: "KernelLogEntry list \<Rightarrow> KernelLogsEvent list \<Rightarrow> KernelLogEntry list" where
  "kernelLogsRun l [] = l"
| "kernelLogsRun l (ev # evs) = kernelLogsRun (kernelLogsStep ev l) evs"

section \<open>LiveTelemetry\<close>

text \<open>
  A reading as the service delivers it. The view reads every field through \<open>?.\<close>,
  so a field may be absent.
\<close>

record TelemetryReading =
  r_timestamp :: "string option"
  vibration_rms :: "number option"
  vibration_peak :: "number option"
  vibration_kurtosis :: "number option"
  temperature :: "number option"
  power_consumption :: "number option"
  anomaly_flag :: "bool option"

record LiveTelemetry =
  selectedMachine :: string
  telemetryData :: "TelemetryReading list"
  latestReading :: "TelemetryReading option"
  isLoading :: bool

text \<open>
  What a request of the view meets: the fetch or the parse rejects, or the document is
  \<open>null\<close> (reading a property of it throws), or it is a document whose \<open>reading\<close>
  (for \<open>fetchLatest\<close>) or \<open>data\<close> (for \<open>fetchTelemetry\<close>) may be absent.
\<close>

datatype 'a Fetched = Rejected | NullDocument | Document "'a option"

text \<open>\<open>{ timestamp: new Date().toLocaleTimeString(), ...data.reading }\<close>\<close>

definition spreadReading :: "string \<Rightarrow> TelemetryReading option \<Rightarrow> TelemetryReading" where
  "spreadReading now rd =
     (case rd of
        None \<Rightarrow>
          \<lparr>r_timestamp = Some now, vibration_rms = None, vibration_peak = None,
           vibration_kurtosis = None, temperature = None, power_consumption = None,
           anomaly_flag = None\<rparr>
      | Some r \<Rightarrow>
          r\<lparr>r_timestamp := (case r_timestamp r of None \<Rightarrow> Some now | Some t \<Rightarrow> Some t)\<rparr>)"

text \<open>\<open>xs.slice(-n)\<close> for \<open>n > 0\<close>: the last \<open>n\<close> elements, all of them if there are fewer.\<close>

definition sliceLast :: "nat \<Rightarrow> 'a list \<Rightarrow> 'a list" where
  "sliceLast n xs = drop (length xs - n) xs"

definition fetchLatest :: "string \<Rightarrow> TelemetryReading Fetched \<Rightarrow> LiveTelemetry \<Rightarrow> LiveTelemetry" where
  "fetchLatest now res st =
     (case res of
        Document rd \<Rightarrow>
          st\<lparr>latestReading := rd,
             telemetryData := sliceLast 49 (telemetryData st) @ [spreadReading now rd]\<rparr>
      | _ \<Rightarrow> st)"

definition fetchTelemetry :: "TelemetryReading list Fetched \<Rightarrow> LiveTelemetry \<Rightarrow> LiveTelemetry" where
  "fetchTelemetry res st =
     (case res of
        Document d \<Rightarrow>
          st\<lparr>telemetryData := (case d of None \<Rightarrow> [] | Some xs \<Rightarrow> xs), isLoading := False\<rparr>
      | _ \<Rightarrow> st\<lparr>isLoading := False\<rparr>)"

text \<open>
  What happens to the view, in the order in which the answers land. The effect issues a
  history request (\<open>fetchTelemetry\<close>) on mount and on every change of the selected
  machine, and a \<open>fetchLatest\<close> every two seconds; nothing orders the answers, so a
  history answer can land before, between or after the answers of \<open>fetchLatest\<close>.
\<close>

datatype LiveEvent =
  HistoryAnswer "TelemetryReading list Fetched"
| LatestAnswer string "TelemetryReading Fetched"

fun liveStep :: "LiveEvent \<Rightarrow> LiveTelemetry \<Rightarrow> LiveTelemetry" where
  "liveStep (HistoryAnswer res) st = fetchTelemetry res st"
| "liveStep (LatestAnswer now res) st = fetchLatest now res st"

fun liveRun :: "LiveTelemetry \<Rightarrow> LiveEvent list \<Rightarrow> LiveTelemetry" where
  "liveRun st [] = st"
| "liveRun st (ev # evs) = liveRun (liveStep ev st) evs"

text \<open>
  The history request carries \<open>limit=50\<close>; the view stores the answer as it comes.
  An event is within the limit unless it is a history answer of more than 50 readings.
\<close>

fun withinLimit :: "LiveEvent \<Rightarrow> bool" where
  "withinLimit (HistoryAnswer (Document (Some xs))) = (length xs \<le> 50)"
| "withinLimit ev = True"

text \<open>The kurtosis indicator and the two trend arrows of the metric cards.\<close>

definition kurtosisElevated :: "TelemetryReading option \<Rightarrow> bool" where
  "kurtosisElevated lr =
     (case lr of None \<Rightarrow> False
      | Some r \<Rightarrow> (case vibration_kurtosis r of None \<Rightarrow> False | Some k \<Rightarrow> 4 < k))"

definition kurtosisClass :: "TelemetryReading option \<Rightarrow> string" where
  "kurtosisClass lr = (if kurtosisElevated lr then ''text-red-500'' else ''text-[#3FB950]'')"

definition vibrationTrend :: "TelemetryReading option \<Rightarrow> string" where
  "vibrationTrend lr =
     (case lr of None \<Rightarrow> ''stable''
      | Some r \<Rightarrow> (case vibration_rms r of None \<Rightarrow> ''stable''
                   | Some v \<Rightarrow> if 25 < v then ''up'' else ''stable''))"

definition temperatureTrend :: "TelemetryReading option \<Rightarrow> string" where
  "temperatureTrend lr =
     (case lr of None \<Rightarrow> ''stable''
      | Some r \<Rightarrow> (case temperature r of None \<Rightarrow> ''stable''
                   | Some t \<Rightarrow> if 50 < t then ''up'' else ''stable''))"

section \<open>Parameters: the alert thresholds\<close>

text \<open>The numeric defaults of the section \<open>alerts\<close> of \<open>PARAMETER_SECTIONS\<close>.\<close>

definition alertThresholds :: "(string \<times> number) list" where
  "alertThresholds =
     [(''vib_warn'', 30), (''vib_crit'', 50), (''temp_warn'', 55), (''temp_crit'', 65),
      (''kurtosis_thresh'', lit (45/10))]"

definition vib_warn :: number where
  "vib_warn = the (map_of alertThresholds ''vib_warn'')"

definition vib_crit :: number where
  "vib_crit = the (map_of alertThresholds ''vib_crit'')"

datatype VibrationBand = Normal | Warning | CriticalBand

text \<open>
  Modelled from the spec: the repository has no function that classifies a vibration
  value; the specification gives the bands "vibration warning \<open>\<ge>\<close> 30 mm/s, critical
  \<open>\<ge>\<close> 50 mm/s", here over the two defaults of \<open>PARAMETER_SECTIONS\<close>.
\<close>

definition classifyVibration :: "number \<Rightarrow> VibrationBand" where
  "classifyVibration v =
     (if vib_crit \<le> v then CriticalBand else if vib_warn \<le> v then Warning else Normal)"

section \<open>Runs of ticks and fetches\<close>

text \<open>The points a run of ticks generates, in the order of their arrival.\<close>

fun generated :: "Console \<Rightarrow> TickEnv list \<Rightarrow> TelemetryPoint list" where
  "generated s [] = []"
| "generated s (env # envs) =
     (case tick env s of
        Inl e \<Rightarrow> []
      | Inr s' \<Rightarrow> newPoint env (last (telemetry s)) # generated s' envs)"

text \<open>The points a run of \<open>fetchLatest\<close> calls adds to the chart: one for each document.\<close>

fun arrived :: "(string \<times> TelemetryReading Fetched) list \<Rightarrow> TelemetryReading list" where
  "arrived [] = []"
| "arrived ((now, Document rd) # rest) = spreadReading now rd # arrived rest"
| "arrived ((now, res) # rest) = arrived rest"

section \<open>Example inputs\<close>

text \<open>\<open>Number::toString\<close> on whole numbers.\<close>

definition integerToString :: "number \<Rightarrow> string" where
  "integerToString n = showInt \<lfloor>n\<rfloor>"

definition quietRandom :: "nat \<Rightarrow> number \<times> number \<times> number" where
  "quietRandom i = (1/2, 1/2, 1/2)"

definition calmTick :: TickEnv where
  "calmTick =
     \<lparr>nextTime = ''10:00:03'', rAnomaly = 1/2, rVib = 1/2, rTemp = 1/2, rPower = 1/2,
      logId = ''k3j9x0q1z'', logTimestamp = ''10:00''\<rparr>"

definition anomalyTick :: TickEnv where
  "anomalyTick =
     \<lparr>nextTime = ''10:00:06'', rAnomaly = 63/64, rVib = 1/4, rTemp = 1/2, rPower = 1/2,
      logId = ''p0w8c2m5a'', logTimestamp = ''10:00''\<rparr>"

definition secondAnomalyTick :: TickEnv where
  "secondAnomalyTick =
     \<lparr>nextTime = ''10:00:09'', rAnomaly = 127/128, rVib = 1/2, rTemp = 1/2, rPower = 1/2,
      logId = ''t7y1b4n6e'', logTimestamp = ''10:00''\<rparr>"

text \<open>A tick whose vibration draw is the largest double below 1.\<close>

definition edgeTick :: TickEnv where
  "edgeTick =
     \<lparr>nextTime = ''10:00:12'', rAnomaly = 63/64,
      rVib = 9007199254740991 / 9007199254740992, rTemp = 1/2, rPower = 1/2,
      logId = ''u2s5d8f1g'', logTimestamp = ''10:00''\<rparr>"

text \<open>A tick whose vibration draw is the largest multiple of \<open>2 ^ -52\<close> below 1.\<close>

definition edgeTick52 :: TickEnv where
  "edgeTick52 =
     \<lparr>nextTime = ''10:00:12'', rAnomaly = 63/64,
      rVib = 4503599627370495 / 4503599627370496, rTemp = 1/2, rPower = 1/2,
      logId = ''w9e2r5t8y'', logTimestamp = ''10:00''\<rparr>"

text \<open>A calm tick whose vibration draw is the largest double below 1.\<close>

definition edgeCalmTick :: TickEnv where
  "edgeCalmTick =
     \<lparr>nextTime = ''10:00:15'', rAnomaly = 1/2,
      rVib = 9007199254740991 / 9007199254740992, rTemp = 1/2, rPower = 1/2,
      logId = ''h4j7k0l3m'', logTimestamp = ''10:00''\<rparr>"

definition loadClock :: "nat \<Rightarrow> int" where
  "loadClock i = 1704067200000"

definition kernelTick :: KernelTickEnv where
  "kernelTick =
     \<lparr>k_now = 1704067203000, k_date = 1704067203000, rLevel = 1/2, rSource = 1/4,
      rMessage = 3/4\<rparr>"

definition boundaryReading :: TelemetryReading where
  "boundaryReading =
     \<lparr>r_timestamp = Some ''2024-01-01T00:00:00'', vibration_rms = Some 25,
      vibration_peak = Some 40, vibration_kurtosis = Some 4, temperature = Some 50,
      power_consumption = Some 12, anomaly_flag = Some False\<rparr>"

definition historyReading :: TelemetryReading where
  "historyReading =
     \<lparr>r_timestamp = Some ''2023-12-31T23:59:00'', vibration_rms = Some 21,
      vibration_peak = Some 35, vibration_kurtosis = Some 3, temperature = Some 44,
      power_consumption = Some 12, anomaly_flag = Some False\<rparr>"

definition emptyLive :: LiveTelemetry where
  "emptyLive =
     \<lparr>selectedMachine = ''CNC-ALPHA-921'', telemetryData = [], latestReading = None,
      isLoading = True\<rparr>"

text \<open>The console after the first anomalous tick.\<close>

definition degradedConsole :: Console where
  "degradedConsole =
     (case tick anomalyTick (initialConsole quietRandom) of
        Inr s \<Rightarrow> s
      | Inl e \<Rightarrow> initialConsole quietRandom)"

definition samplePoint :: TelemetryPoint where
  "samplePoint = \<lparr>time = ''39:00'', vibration = 20, temp = 43, power = 23/2\<rparr>"

section \<open>Rounding: bounds by whole numbers\<close>

lemma rne_cases: "rne x = \<lfloor>x\<rfloor> \<or> (rne x = \<lfloor>x\<rfloor> + 1 \<and> of_int \<lfloor>x\<rfloor> \<noteq> x)"
  by (auto simp: rne_def Let_def)

lemma rne_le: "x \<le> of_int n \<Longrightarrow> rne x \<le> n"
proof -
  assume a: "x \<le> of_int n"
  have f: "\<lfloor>x\<rfloor> \<le> n" using a by (simp add: floor_le_iff)
  consider "rne x = \<lfloor>x\<rfloor>" | "rne x = \<lfloor>x\<rfloor> + 1" "of_int \<lfloor>x\<rfloor> \<noteq> x"
    using rne_cases by blast
  then show ?thesis
  proof cases
    case 1 then show ?thesis using f by simp
  next
    case 2
    have "x \<noteq> of_int n" using 2(2) by auto
    then have "x < of_int n" using a by simp
    then have "\<lfloor>x\<rfloor> < n" by (simp add: floor_less_iff)
    then show ?thesis using 2(1) by simp
  qed
qed

lemma rne_ge: "of_int n \<le> x \<Longrightarrow> n \<le> rne x"
proof -
  assume a: "of_int n \<le> x"
  have "n \<le> \<lfloor>x\<rfloor>" using a by (simp add: le_floor_iff)
  then show ?thesis using rne_cases[of x] by auto
qed

lemma ilog2_bounds:
  assumes "0 < x"
  shows "2 powi ilog2 x \<le> x" and "x < 2 powi (ilog2 x + 1)"
proof -
  obtain p q where pq: "quotient_of x = (p, q)" by (cases "quotient_of x")
  have q: "0 < q" using pq quotient_of_denom_pos by blast
  have x: "x = of_int p / of_int q" using pq by (simp add: quotient_of_div)
  have p: "0 < p" using assms q x by (simp add: zero_less_divide_iff)
  define d where "d = bitlen p - bitlen q"
  have bp: "2 ^ nat (bitlen p - 1) \<le> p" "p < 2 ^ nat (bitlen p)"
    using bitlen_bounds[OF p] by auto
  have bq: "2 ^ nat (bitlen q - 1) \<le> q" "q < 2 ^ nat (bitlen q)"
    using bitlen_bounds[OF q] by auto
  have bp0: "0 < bitlen p" using p bitlen_eq_zero_iff[of p] bitlen_nonneg[of p] by linarith
  have bq0: "0 < bitlen q" using q bitlen_eq_zero_iff[of q] bitlen_nonneg[of q] by linarith
  have P1: "(2::rat) powi (bitlen p - 1) \<le> of_int p"
  proof -
    have "of_int (2 ^ nat (bitlen p - 1)) \<le> (of_int p :: rat)" using bp(1) of_int_le_iff by blast
    then show ?thesis using bp0 by (simp add: power_int_def)
  qed
  have P2: "of_int p < (2::rat) powi (bitlen p)"
  proof -
    have "(of_int p :: rat) < of_int (2 ^ nat (bitlen p))" using bp(2) of_int_less_iff by blast
    then show ?thesis using bp0 by (simp add: power_int_def)
  qed
  have Q1: "(2::rat) powi (bitlen q - 1) \<le> of_int q"
  proof -
    have "of_int (2 ^ nat (bitlen q - 1)) \<le> (of_int q :: rat)" using bq(1) of_int_le_iff by blast
    then show ?thesis using bq0 by (simp add: power_int_def)
  qed
  have Q2: "of_int q < (2::rat) powi (bitlen q)"
  proof -
    have "(of_int q :: rat) < of_int (2 ^ nat (bitlen q))" using bq(2) of_int_less_iff by blast
    then show ?thesis using bq0 by (simp add: power_int_def)
  qed
  have qpos: "(0::rat) < of_int q" using q by simp
  have up: "x < 2 powi (d + 1)"
  proof -
    have "x * of_int q = of_int p" using x qpos by simp
    also have "\<dots> < 2 powi (bitlen p)" by (rule P2)
    also have "\<dots> = 2 powi (d + 1) * 2 powi (bitlen q - 1)"
      by (simp add: d_def flip: power_int_add)
    also have "\<dots> \<le> 2 powi (d + 1) * of_int q"
      using Q1 by (simp add: mult_left_mono)
    finally show ?thesis using qpos by simp
  qed
  have lo: "2 powi (d - 1) < x"
  proof -
    have "2 powi (d - 1) * of_int q < 2 powi (d - 1) * (2::rat) powi (bitlen q)"
      using Q2 by (simp add: mult_strict_left_mono)
    also have "\<dots> = 2 powi (bitlen p - 1)"
      by (simp add: d_def flip: power_int_add)
    also have "\<dots> \<le> of_int p" by (rule P1)
    also have "\<dots> = x * of_int q" using x qpos by simp
    finally show ?thesis using qpos by simp
  qed
  have il: "ilog2 x = (if 2 powi d \<le> x then d else d - 1)"
    by (simp add: ilog2_def pq d_def Let_def)
  show "2 powi ilog2 x \<le> x" using il lo by (auto simp: less_imp_le)
  show "x < 2 powi (ilog2 x + 1)" using il up by (auto simp: not_le)
qed


lemma int_div_ulp:
  assumes "e \<le> 52"
  shows "of_int n / (2::rat) powi (e - 52) = of_int (n * 2 ^ nat (52 - e))"
proof -
  have "(2::rat) powi (e - 52) = inverse (2 ^ nat (52 - e))"
    using assms by (cases "e = 52") (simp_all add: power_int_def power_one_over inverse_eq_divide)
  then show ?thesis by (simp add: divide_inverse)
qed

lemma fl_le_int:
  assumes x: "0 \<le> x" and xn: "x \<le> of_int n" and n: "n < 2 ^ 53"
  shows "fl x \<le> of_int n"
proof (cases "x = 0")
  case True
  then show ?thesis using xn by (simp add: fl_def)
next
  case False
  then have x0: "0 < x" using x by simp
  define e where "e = max (ilog2 \<bar>x\<bar>) (- 1022)"
  define u :: rat where "u = 2 powi (e - 52)"
  have u0: "0 < u" by (simp add: u_def)
  have flx: "fl x = of_int (rne (x / u)) * u"
    using False by (simp add: fl_def e_def u_def Let_def)
  have e52: "e \<le> 52"
  proof (rule ccontr)
    assume "\<not> e \<le> 52"
    then have big: "53 \<le> e" and ee: "e = ilog2 x" using x0 by (auto simp: e_def max_def split: if_splits)
    have "(2::rat) powi 53 \<le> 2 powi e" using big by (intro power_int_increasing) simp_all
    also have "\<dots> \<le> x" using ilog2_bounds(1)[OF x0] ee by simp
    also have "\<dots> \<le> of_int n" by (rule xn)
    also have "\<dots> < of_int (2 ^ 53)" using n of_int_less_iff by blast
    finally show False by simp
  qed
  define k where "k = n * 2 ^ nat (52 - e)"
  have nk: "of_int n / u = of_int k" unfolding u_def k_def by (rule int_div_ulp[OF e52])
  have "x / u \<le> of_int n / u" using xn u0 by (simp add: divide_right_mono)
  then have "rne (x / u) \<le> k" using nk rne_le by simp
  then have "of_int (rne (x / u)) * u \<le> of_int k * u"
    using u0 by (simp add: mult_right_mono)
  also have "of_int k * u = of_int n" using nk u0 by (simp add: field_simps)
  finally show ?thesis using flx by simp
qed

lemma fl_ge_int:
  assumes n0: "0 \<le> n" and nx: "of_int n \<le> x" and n: "n < 2 ^ 53"
  shows "of_int n \<le> fl x"
proof (cases "x = 0")
  case True
  then show ?thesis using nx by (simp add: fl_def)
next
  case False
  have "(0::rat) \<le> of_int n" using n0 by simp
  then have x0: "0 < x" using nx False by simp
  define e where "e = max (ilog2 \<bar>x\<bar>) (- 1022)"
  define u :: rat where "u = 2 powi (e - 52)"
  have u0: "0 < u" by (simp add: u_def)
  have flx: "fl x = of_int (rne (x / u)) * u"
    using False by (simp add: fl_def e_def u_def Let_def)
  show ?thesis
  proof (cases "e \<le> 52")
    case True
    define k where "k = n * 2 ^ nat (52 - e)"
    have nk: "of_int n / u = of_int k" unfolding u_def k_def by (rule int_div_ulp[OF True])
    have "of_int n / u \<le> x / u" using nx u0 by (simp add: divide_right_mono)
    then have "k \<le> rne (x / u)" using nk rne_ge by simp
    then have "of_int k * u \<le> of_int (rne (x / u)) * u"
      using u0 by (simp add: mult_right_mono)
    moreover have "of_int k * u = of_int n" using nk u0 by (simp add: field_simps)
    ultimately show ?thesis using flx by simp
  next
    case False
    then have big: "53 \<le> e" and ee: "e = ilog2 x" using x0 by (auto simp: e_def max_def split: if_splits)
    have xe: "2 powi e \<le> x" using ilog2_bounds(1)[OF x0] ee by simp
    have "(2::rat) powi e = of_int (2 ^ 52) * u"
      by (simp add: u_def power_int_diff)
    then have "of_int (2 ^ 52) \<le> x / u" using xe u0 by (simp add: field_simps)
    then have "2 ^ 52 \<le> rne (x / u)" by (rule rne_ge)
    then have "of_int (2 ^ 52) * u \<le> of_int (rne (x / u)) * u"
      using u0 by (simp add: mult_right_mono)
    also have "of_int (2 ^ 52) * u = 2 powi e" by (simp add: u_def power_int_diff)
    finally have "2 powi e \<le> fl x" using flx by simp
    moreover have "(2::rat) powi 53 \<le> 2 powi e" using big by (intro power_int_increasing) simp_all
    moreover have "(of_int n :: rat) < of_int (2 ^ 53)" using n of_int_less_iff by blast
    ultimately show ?thesis by simp
  qed
qed

lemma lit_98: "lit (98/100) = 2206763817411543 / 2251799813685248"
  by code_simp

lemma isAnomaly_iff: "isAnomaly env \<longleftrightarrow> 2206763817411543 / 2251799813685248 < rAnomaly env"
  unfolding isAnomaly_def lit_98 by (rule refl)

lemma thresholds: "vib_warn = 30" "vib_crit = 50"
  by (simp_all add: vib_warn_def vib_crit_def alertThresholds_def)

lemma anomalous_range:
  assumes "0 \<le> r" "r < 1"
  shows "55 \<le> fadd 55 (fmul r 25)" "fadd 55 (fmul r 25) \<le> 80"
proof -
  have p0: "0 \<le> fmul r 25"
    unfolding fmul_def using fl_ge_int[of 0 "r * 25"] assms by simp
  have p1: "fmul r 25 \<le> 25"
    unfolding fmul_def using fl_le_int[of "r * 25" 25] assms by simp
  show "55 \<le> fadd 55 (fmul r 25)"
    unfolding fadd_def using fl_ge_int[of 55 "55 + fmul r 25"] p0 by simp
  show "fadd 55 (fmul r 25) \<le> 80"
    unfolding fadd_def using fl_le_int[of "55 + fmul r 25" 80] p0 p1 by simp
qed

lemma baseline_range:
  assumes "0 \<le> r" "r < 1"
  shows "20 \<le> fadd 20 (fmul r 4)" "fadd 20 (fmul r 4) \<le> 24"
proof -
  have p0: "0 \<le> fmul r 4"
    unfolding fmul_def using fl_ge_int[of 0 "r * 4"] assms by simp
  have p1: "fmul r 4 \<le> 4"
    unfolding fmul_def using fl_le_int[of "r * 4" 4] assms by simp
  show "20 \<le> fadd 20 (fmul r 4)"
    unfolding fadd_def using fl_ge_int[of 20 "20 + fmul r 4"] p0 by simp
  show "fadd 20 (fmul r 4) \<le> 24"
    unfolding fadd_def using fl_le_int[of "20 + fmul r 4" 24] p0 p1 by simp
qed

lemma edge_sum: "fadd 55 (fmul (9007199254740991 / 9007199254740992) 25) = 80"
  by code_simp

lemma edge_sum52: "fadd 55 (fmul (4503599627370495 / 4503599627370496) 25) = 80"
  by code_simp

lemma edge_base: "fadd 20 (fmul (9007199254740991 / 9007199254740992) 4) = 24"
  by code_simp

lemma edge_is_double: "fl (9007199254740991 / 9007199254740992) = 9007199254740991 / 9007199254740992"
  by code_simp

section \<open>The console state machine: shared facts\<close>

lemma tick_Inr:
  "telemetry s \<noteq> [] \<Longrightarrow>
   tick env s =
     Inr ((if isAnomaly env \<and> systemStatus s = Nominal
           then s\<lparr>logs := addLog (logId env) (logTimestamp env) TCritical
                             (anomalyMessage (newPoint env (last (telemetry s)))) (logs s),
                  systemStatus := Degraded\<rparr>
           else s)\<lparr>telemetry := tl (telemetry s) @ [newPoint env (last (telemetry s))]\<rparr>)"
  by (cases "telemetry s") (simp_all add: tick_def Let_def)

lemma tick_Inl: "telemetry s = [] \<Longrightarrow> tick env s = Inl TypeError"
  by (simp add: tick_def)

lemma tick_defined: "tick env s = Inr s' \<Longrightarrow> telemetry s \<noteq> []"
  by (auto simp: tick_def)

lemma tick_telemetry:
  "tick env s = Inr s' \<Longrightarrow> telemetry s' = tl (telemetry s) @ [newPoint env (last (telemetry s))]"
  using tick_Inr[of s env] tick_defined[of env s s'] by (auto split: if_splits)

lemma tick_status:
  "tick env s = Inr s' \<Longrightarrow>
   systemStatus s' = (if isAnomaly env \<and> systemStatus s = Nominal then Degraded else systemStatus s)"
  using tick_Inr[of s env] tick_defined[of env s s'] by (auto split: if_splits)

lemma tick_logs:
  "tick env s = Inr s' \<Longrightarrow>
   logs s' = (if isAnomaly env \<and> systemStatus s = Nominal
              then addLog (logId env) (logTimestamp env) TCritical
                     (anomalyMessage (newPoint env (last (telemetry s)))) (logs s)
              else logs s)"
  using tick_Inr[of s env] tick_defined[of env s s'] by (auto split: if_splits)

lemma tryCatchFinally_analysis:
  "tryCatchFinally body analysisCatch analysisFinally s0 =
     Inr ((case body of Inr s \<Rightarrow> s | Inl e \<Rightarrow> s0\<lparr>aiInsight := Some fallbackText\<rparr>)
            \<lparr>isAiAnalyzing := False\<rparr>)"
  by (cases body) (simp_all add: tryCatchFinally_def analysisCatch_def analysisFinally_def)

lemma analysisTry_Inr:
  "fst (analysisTry ns (s, net)) = Inr s' \<Longrightarrow> \<exists>txt. s' = s\<lparr>aiInsight := Some txt\<rparr>"
  by (auto simp: analysisTry_def split: list.splits prod.splits FetchOutcome.splits sum.splits)

lemma runAiAnalysis_result:
  "\<exists>txt. fst (runAiAnalysis ns (s, net)) = Inr (s\<lparr>aiInsight := Some txt, isAiAnalyzing := False\<rparr>)"
proof -
  define s0 where "s0 = s\<lparr>isAiAnalyzing := True, aiInsight := None\<rparr>"
  obtain body net' where b: "analysisTry ns (s0, net) = (body, net')"
    by (cases "analysisTry ns (s0, net)")
  have r: "fst (runAiAnalysis ns (s, net)) = tryCatchFinally body analysisCatch analysisFinally s0"
    using b by (simp add: runAiAnalysis_def s0_def Let_def)
  show ?thesis
  proof (cases body)
    case (Inl e)
    then show ?thesis using r
      by (intro exI[of _ fallbackText]) (simp add: tryCatchFinally_analysis s0_def)
  next
    case (Inr s1)
    then obtain ins where "s1 = s0\<lparr>aiInsight := Some ins\<rparr>"
      using analysisTry_Inr[of ns s0 net s1] b by auto
    then show ?thesis using r Inr
      by (intro exI[of _ ins]) (simp add: tryCatchFinally_analysis s0_def)
  qed
qed

lemma step_Analyze:
  "\<exists>txt. step (Analyze ns outs) s = Inr (s\<lparr>aiInsight := Some txt, isAiAnalyzing := False\<rparr>)"
  using runAiAnalysis_result[of ns s] by simp

lemma step_telemetry_length:
  "step ev s = Inr s' \<Longrightarrow> length (telemetry s') = length (telemetry s)"
proof (cases ev)
  case (Tick env)
  assume "step ev s = Inr s'"
  then have t: "tick env s = Inr s'" using Tick by simp
  show ?thesis using tick_telemetry[OF t] tick_defined[OF t] by simp
next
  case Recalibrate
  assume "step ev s = Inr s'"
  then show ?thesis using Recalibrate by (auto simp: recalibrate_def)
next
  case (Analyze ns outs)
  assume "step ev s = Inr s'"
  then show ?thesis using Analyze step_Analyze[of ns outs s] by auto
qed

lemma step_defined: "telemetry s \<noteq> [] \<Longrightarrow> \<exists>s'. step ev s = Inr s'"
proof (cases ev)
  case (Tick env)
  assume "telemetry s \<noteq> []"
  then show ?thesis using Tick tick_Inr[of s env] by simp
next
  case Recalibrate
  then show ?thesis by simp
next
  case (Analyze ns outs)
  then show ?thesis using step_Analyze[of ns outs s] by blast
qed

lemma run_defined: "telemetry s \<noteq> [] \<Longrightarrow> \<exists>s'. run s evs = Inr s'"
proof (induction evs arbitrary: s)
  case Nil
  then show ?case by simp
next
  case (Cons ev evs)
  obtain s1 where s1: "step ev s = Inr s1" using step_defined[OF Cons.prems] by blast
  have "telemetry s1 \<noteq> []" using step_telemetry_length[OF s1] Cons.prems by auto
  then show ?case using Cons.IH[of s1] s1 by simp
qed

lemma step_status:
  "step ev s = Inr s' \<Longrightarrow>
   systemStatus s' =
     (case ev of
        Tick env \<Rightarrow> if isAnomaly env \<and> systemStatus s = Nominal then Degraded else systemStatus s
      | Recalibrate \<Rightarrow> Nominal
      | Analyze ns outs \<Rightarrow> systemStatus s)"
proof (cases ev)
  case (Tick env)
  assume "step ev s = Inr s'"
  then show ?thesis using Tick tick_status[of env s s'] by simp
next
  case Recalibrate
  assume "step ev s = Inr s'"
  then show ?thesis using Recalibrate by (auto simp: recalibrate_def)
next
  case (Analyze ns outs)
  assume "step ev s = Inr s'"
  then show ?thesis using Analyze step_Analyze[of ns outs s] by auto
qed

lemma run_stays_degraded:
  "systemStatus s = Degraded \<Longrightarrow> Recalibrate \<notin> set evs \<Longrightarrow> run s evs = Inr s' \<Longrightarrow>
   systemStatus s' = Degraded"
proof (induction evs arbitrary: s)
  case Nil
  then show ?case by simp
next
  case (Cons ev evs)
  from Cons.prems(3) obtain s1 where s1: "step ev s = Inr s1" and r: "run s1 evs = Inr s'"
    by (auto split: sum.splits)
  have "ev \<noteq> Recalibrate" using Cons.prems(2) by auto
  then have "systemStatus s1 = Degraded"
    using step_status[OF s1] Cons.prems(1) by (cases ev) simp_all
  then show ?case using Cons.IH[OF _ _ r] Cons.prems(2) by simp
qed

lemma step_to_nominal:
  "systemStatus s \<noteq> Nominal \<Longrightarrow> step ev s = Inr s' \<Longrightarrow> systemStatus s' = Nominal \<Longrightarrow>
   ev = Recalibrate"
  using step_status[of ev s s'] by (cases ev) (auto split: if_splits)

lemma run_never_critical:
  "systemStatus s \<noteq> Critical \<Longrightarrow> run s evs = Inr s' \<Longrightarrow> systemStatus s' \<noteq> Critical"
proof (induction evs arbitrary: s)
  case Nil
  then show ?case by simp
next
  case (Cons ev evs)
  from Cons.prems(2) obtain s1 where s1: "step ev s = Inr s1" and r: "run s1 evs = Inr s'"
    by (auto split: sum.splits)
  have "systemStatus s1 \<noteq> Critical"
    using step_status[OF s1] Cons.prems(1) by (cases ev) (simp_all split: if_splits)
  then show ?case using Cons.IH[OF _ r] by simp
qed

lemma tick_last:
  "tick env s = Inr s' \<Longrightarrow> last (telemetry s') = newPoint env (last (telemetry s))"
  using tick_telemetry[of env s s'] by simp

lemma initialTelemetry_length: "length (initialTelemetry rnd) = 40"
  by (simp add: initialTelemetry_def)

lemma initialConsole_nonempty: "telemetry (initialConsole rnd) \<noteq> []"
  using initialTelemetry_length[of rnd] by (auto simp: initialConsole_def)

lemma isAnomaly_examples:
  "isAnomaly anomalyTick" "isAnomaly secondAnomalyTick" "isAnomaly edgeTick"
  "\<not> isAnomaly calmTick" "\<not> isAnomaly edgeCalmTick" "isAnomaly edgeTick52"
  by (simp_all add: isAnomaly_iff anomalyTick_def secondAnomalyTick_def edgeTick_def calmTick_def
        edgeCalmTick_def edgeTick52_def)

lemma tick_anomalyTick: "tick anomalyTick (initialConsole quietRandom) = Inr degradedConsole"
  using tick_Inr[where s = "initialConsole quietRandom" and env = anomalyTick,
          OF initialConsole_nonempty]
  by (simp add: degradedConsole_def)

lemma degradedConsole_status: "systemStatus degradedConsole = Degraded"
  using tick_status[OF tick_anomalyTick] isAnomaly_examples(1) by (simp add: initialConsole_def)

lemma degradedConsole_nonempty: "telemetry degradedConsole \<noteq> []"
  using tick_telemetry[OF tick_anomalyTick] by simp

lemma quarter_sum: "fadd 55 (fmul (1/4) 25) = 245/4"
  by code_simp

lemma half_base: "fadd 20 (fmul (1/2) 4) = 22"
  by code_simp

lemma toFixed_quarter: "toFixed 1 (245/4) = ''61.3''"
  by code_simp

lemma addLog_eq:
  "addLog i t ty m l = \<lparr>entry_id = i, timestamp = t, message = m, entry_type = ty\<rparr> # take 14 l"
  by (simp add: addLog_def)

lemma addLog_length: "length (addLog i t ty m l) = min 15 (length l + 1)"
  by (simp add: addLog_def)

lemma degradedConsole_logs:
  "logs degradedConsole =
     [\<lparr>entry_id = ''p0w8c2m5a'', timestamp = ''10:00'',
       message = ''Anomaly: Spindle vibration threshold exceeded (61.3Hz)'',
       entry_type = TCritical\<rparr>]"
proof -
  have v: "vibration (newPoint anomalyTick p) = 245/4" for p
    using quarter_sum isAnomaly_examples(1) by (simp add: newPoint_def anomalyTick_def)
  have m: "anomalyMessage (newPoint anomalyTick p) =
             ''Anomaly: Spindle vibration threshold exceeded (61.3Hz)''" for p
    unfolding anomalyMessage_def v toFixed_quarter by simp
  have i: "logId anomalyTick = ''p0w8c2m5a''" "logTimestamp anomalyTick = ''10:00''"
    by (simp_all add: anomalyTick_def)
  have "logs degradedConsole =
          addLog (logId anomalyTick) (logTimestamp anomalyTick) TCritical
            (anomalyMessage (newPoint anomalyTick (last (telemetry (initialConsole quietRandom)))))
            (logs (initialConsole quietRandom))"
    using tick_logs[OF tick_anomalyTick] isAnomaly_examples(1) by (simp add: initialConsole_def)
  then show ?thesis
    unfolding m i by (simp add: addLog_def initialConsole_def)
qed

lemma step_logs:
  "step ev s = Inr s' \<Longrightarrow>
   logs s' =
     (case ev of
        Tick env \<Rightarrow>
          if isAnomaly env \<and> systemStatus s = Nominal
          then addLog (logId env) (logTimestamp env) TCritical
                 (anomalyMessage (newPoint env (last (telemetry s)))) (logs s)
          else logs s
      | Recalibrate \<Rightarrow> logs s
      | Analyze ns outs \<Rightarrow> logs s)"
proof (cases ev)
  case (Tick env)
  assume "step ev s = Inr s'"
  then show ?thesis using Tick tick_logs[of env s s'] by simp
next
  case Recalibrate
  assume "step ev s = Inr s'"
  then show ?thesis using Recalibrate by (auto simp: recalibrate_def)
next
  case (Analyze ns outs)
  assume "step ev s = Inr s'"
  then show ?thesis using Analyze step_Analyze[of ns outs s] by auto
qed

lemma run_logs_bounded:
  "length (logs s) \<le> 15 \<Longrightarrow> run s evs = Inr s' \<Longrightarrow> length (logs s') \<le> 15"
proof (induction evs arbitrary: s)
  case Nil
  then show ?case by simp
next
  case (Cons ev evs)
  from Cons.prems(2) obtain s1 where s1: "step ev s = Inr s1" and r: "run s1 evs = Inr s'"
    by (auto split: sum.splits)
  have "length (logs s1) \<le> 15"
    using step_logs[OF s1] Cons.prems(1) by (cases ev) (simp_all add: addLog_length)
  then show ?case using Cons.IH[OF _ r] by simp
qed

lemma kernelLogsStep_length: "length l \<le> 100 \<Longrightarrow> length (kernelLogsStep ev l) \<le> 100"
  by (cases ev) (simp_all add: kernelLogsTick_def clearLogs_def)

lemma kernelLogsRun_bounded: "length l \<le> 100 \<Longrightarrow> length (kernelLogsRun l evs) \<le> 100"
proof (induction evs arbitrary: l)
  case Nil
  then show ?case by simp
next
  case (Cons ev evs)
  then show ?case using kernelLogsStep_length[of l ev] by simp
qed

lemma MOCK_LOGS_length: "length (MOCK_LOGS clock) = 10"
  by (simp add: MOCK_LOGS_def)

section \<open>Rolling buffers: shared facts\<close>

lemma sliceLast_length: "length (sliceLast n xs) = min n (length xs)"
  by (simp add: sliceLast_def)

lemma sliceLast_all: "length xs \<le> n \<Longrightarrow> sliceLast n xs = xs"
  by (simp add: sliceLast_def)

lemma sliceLast_append_sliceLast: "sliceLast n (sliceLast n xs @ ys) = sliceLast n (xs @ ys)"
proof (cases "length xs \<le> n")
  case True
  then show ?thesis by (simp add: sliceLast_all)
next
  case False
  then show ?thesis by (simp add: sliceLast_def add.commute)
qed

lemma sliceLast_append_long: "n \<le> length ys \<Longrightarrow> sliceLast n (xs @ ys) = sliceLast n ys"
  by (simp add: sliceLast_def)

lemma push_console: "length b = 40 \<Longrightarrow> tl b @ [p] = sliceLast 40 (b @ [p])"
  by (cases b) (simp_all add: sliceLast_def)

lemma push_live: "sliceLast 49 b @ [p] = sliceLast 50 (b @ [p])"
  by (simp add: sliceLast_def Suc_diff_le)

lemma generated_length: "telemetry s \<noteq> [] \<Longrightarrow> length (generated s envs) = length envs"
proof (induction envs arbitrary: s)
  case Nil
  then show ?case by simp
next
  case (Cons env envs)
  obtain s1 where s1: "tick env s = Inr s1" using tick_Inr[OF Cons.prems] by blast
  have "telemetry s1 \<noteq> []" using tick_telemetry[OF s1] by simp
  then show ?case using Cons.IH[of s1] s1 by simp
qed

lemma run_ticks_buffer:
  "length (telemetry s) = 40 \<Longrightarrow>
   \<exists>s'. run s (map Tick envs) = Inr s'
        \<and> telemetry s' = sliceLast 40 (telemetry s @ generated s envs)"
proof (induction envs arbitrary: s)
  case Nil
  then show ?case by (simp add: sliceLast_all)
next
  case (Cons env envs)
  have ne: "telemetry s \<noteq> []" using Cons.prems by auto
  obtain s1 where s1: "tick env s = Inr s1" using tick_Inr[OF ne] by blast
  define p where "p = newPoint env (last (telemetry s))"
  have t1: "telemetry s1 = sliceLast 40 (telemetry s @ [p])"
    using tick_telemetry[OF s1] push_console[OF Cons.prems, of p] by (simp add: p_def)
  have l1: "length (telemetry s1) = 40"
    using t1 Cons.prems by (simp add: sliceLast_length)
  obtain s' where r: "run s1 (map Tick envs) = Inr s'"
    and b: "telemetry s' = sliceLast 40 (telemetry s1 @ generated s1 envs)"
    using Cons.IH[OF l1] by blast
  have "telemetry s' = sliceLast 40 (telemetry s @ p # generated s1 envs)"
    using b t1 sliceLast_append_sliceLast[of 40 "telemetry s @ [p]" "generated s1 envs"] by simp
  then show ?case using s1 r by (simp add: p_def)
qed

lemma fetchLatest_data:
  "telemetryData (fetchLatest now res st) =
     (case res of Document rd \<Rightarrow> sliceLast 50 (telemetryData st @ [spreadReading now rd])
      | _ \<Rightarrow> telemetryData st)"
  by (cases res) (simp_all add: fetchLatest_def push_live)

lemma fetchTelemetry_data:
  "telemetryData (fetchTelemetry res st) =
     (case res of Document d \<Rightarrow> (case d of None \<Rightarrow> [] | Some xs \<Rightarrow> xs)
      | _ \<Rightarrow> telemetryData st)"
  by (cases res) (simp_all add: fetchTelemetry_def)

lemma liveRun_append: "liveRun st (evs @ evs') = liveRun (liveRun st evs) evs'"
  by (induction evs arbitrary: st) simp_all

lemma liveRun_latest_empty:
  "arrived lats = [] \<Longrightarrow>
   telemetryData (liveRun st (map (case_prod LatestAnswer) lats)) = telemetryData st"
proof (induction lats arbitrary: st)
  case Nil
  then show ?case by simp
next
  case (Cons q qs)
  obtain n2 r2 where q: "q = (n2, r2)" by (cases q)
  have nd: "\<forall>rd. r2 \<noteq> Document rd" using Cons.prems q by (cases r2) auto
  then have "fetchLatest n2 r2 st = st" by (cases r2) (simp_all add: fetchLatest_def)
  moreover have "arrived qs = []" using Cons.prems q nd by (cases r2) auto
  ultimately show ?case using Cons.IH[of st] q by simp
qed

lemma liveRun_latest_nonempty:
  "arrived lats \<noteq> [] \<Longrightarrow>
   telemetryData (liveRun st (map (case_prod LatestAnswer) lats)) =
     sliceLast 50 (telemetryData st @ arrived lats)"
proof (induction lats arbitrary: st)
  case Nil
  then show ?case by simp
next
  case (Cons r lats)
  obtain now res where r: "r = (now, res)" by (cases r)
  show ?case
  proof (cases res)
    case (Document rd)
    define st1 where "st1 = fetchLatest now res st"
    have d1: "telemetryData st1 = sliceLast 50 (telemetryData st @ [spreadReading now rd])"
      using fetchLatest_data[of now res st] Document by (simp add: st1_def)
    show ?thesis
    proof (cases "arrived lats = []")
      case True
      then show ?thesis
        using liveRun_latest_empty[OF True, of st1] d1 r Document by (simp add: st1_def)
    next
      case False
      have "telemetryData (liveRun st1 (map (case_prod LatestAnswer) lats)) =
              sliceLast 50 (telemetryData st1 @ arrived lats)"
        by (rule Cons.IH[OF False])
      then show ?thesis
        using d1 r Document
          sliceLast_append_sliceLast[of 50 "telemetryData st @ [spreadReading now rd]" "arrived lats"]
        by (simp add: st1_def)
    qed
  next
    case Rejected
    then have "fetchLatest now res st = st" by (simp add: fetchLatest_def)
    then show ?thesis using Cons r Rejected by simp
  next
    case NullDocument
    then have "fetchLatest now res st = st" by (simp add: fetchLatest_def)
    then show ?thesis using Cons r NullDocument by simp
  qed
qed

lemma liveRun_latest:
  "telemetryData (liveRun st (map (case_prod LatestAnswer) lats)) =
     (if arrived lats = [] then telemetryData st
      else sliceLast 50 (telemetryData st @ arrived lats))"
  using liveRun_latest_empty[of lats st] liveRun_latest_nonempty[of lats st] by simp

lemma liveStep_within:
  "length (telemetryData st) \<le> 50 \<Longrightarrow> withinLimit ev \<Longrightarrow>
   length (telemetryData (liveStep ev st)) \<le> 50"
proof (cases ev)
  case (HistoryAnswer res)
  assume "length (telemetryData st) \<le> 50" "withinLimit ev"
  then show ?thesis
    using HistoryAnswer fetchTelemetry_data[of res st]
    by (cases res) (auto split: option.splits)
next
  case (LatestAnswer now res)
  assume "length (telemetryData st) \<le> 50" "withinLimit ev"
  then show ?thesis
    using LatestAnswer fetchLatest_data[of now res st]
    by (cases res) (simp_all add: sliceLast_length)
qed

lemma liveRun_within:
  "length (telemetryData st) \<le> 50 \<Longrightarrow> list_all withinLimit evs \<Longrightarrow>
   length (telemetryData (liveRun st evs)) \<le> 50"
proof (induction evs arbitrary: st)
  case Nil
  then show ?case by simp
next
  case (Cons ev evs)
  then show ?case using liveStep_within[of st ev] by simp
qed

lemma liveRun_history_last:
  "telemetryData (liveRun st (evs @ [HistoryAnswer (Document d)])) =
     (case d of None \<Rightarrow> [] | Some xs \<Rightarrow> xs)"
  by (simp add: liveRun_append fetchTelemetry_data)

lemma generated_time:
  "telemetry s \<noteq> [] \<Longrightarrow> map time (generated s envs) = map nextTime envs"
proof (induction envs arbitrary: s)
  case Nil
  then show ?case by simp
next
  case (Cons env envs)
  obtain s1 where s1: "tick env s = Inr s1" using tick_Inr[OF Cons.prems] by blast
  have "telemetry s1 \<noteq> []" using tick_telemetry[OF s1] by simp
  then show ?case using Cons.IH[of s1] s1 by (simp add: newPoint_def)
qed

lemma arrived_replicate:
  "arrived (replicate n (now, Document rd)) = replicate n (spreadReading now rd)"
  by (induction n) simp_all

section \<open>The prediction request: shared facts\<close>

lemma getProp_error: "getProp v k = Inl e \<Longrightarrow> e = TypeError"
  by (cases v) auto

lemma callToUpperCase_Inr:
  "callToUpperCase v = Inr u \<Longrightarrow> \<exists>str. v = Some (JStr str)"
  by (cases v rule: callToUpperCase.cases) auto

lemma insightOf_no_risk_level:
  assumes "\<forall>str. getProp data ''risk_level'' \<noteq> Inr (Some (JStr str))"
  shows "insightOf ns data = Inl TypeError"
proof (cases "getProp data ''risk_level''")
  case (Inl e)
  then show ?thesis using getProp_error[OF Inl] by (simp add: insightOf_def)
next
  case (Inr rl)
  have "callToUpperCase rl = Inl TypeError"
  proof (cases "callToUpperCase rl")
    case (Inl e)
    then show ?thesis by (cases rl rule: callToUpperCase.cases) auto
  next
    case (Inr u)
    then show ?thesis using callToUpperCase_Inr[OF Inr] assms \<open>getProp data ''risk_level'' = Inr rl\<close>
      by auto
  qed
  then show ?thesis using Inr by (simp add: insightOf_def)
qed

lemma insightOf_prefix:
  "insightOf ns data = Inr ins \<Longrightarrow> take 12 ins = ''Risk Level: ''"
  by (auto simp: insightOf_def split: sum.splits)

lemma runAiAnalysis_failure:
  assumes "telemetry s \<noteq> []"
    and "out = FetchRejected \<or> out = JsonRejected \<or> (\<exists>d e. out = JsonBody d \<and> insightOf ns d = Inl e)"
  shows "runAiAnalysis ns (s, \<lparr>sent = done, pending = out # rest\<rparr>) =
           (Inr (s\<lparr>aiInsight := Some fallbackText, isAiAnalyzing := False\<rparr>),
            \<lparr>sent = done @ [buildRequest (systemStatus s) (last (telemetry s))], pending = rest\<rparr>)"
proof -
  obtain p ps where tp: "telemetry s = p # ps" using assms(1) by (cases "telemetry s") auto
  show ?thesis
    using assms(2) tp
    by (auto simp: runAiAnalysis_def analysisTry_def fetchPredict_def tryCatchFinally_analysis
          Let_def)
qed

lemma runAiAnalysis_success:
  assumes "telemetry s \<noteq> []" and "insightOf ns d = Inr ins"
  shows "runAiAnalysis ns (s, \<lparr>sent = done, pending = JsonBody d # rest\<rparr>) =
           (Inr (s\<lparr>aiInsight := Some ins, isAiAnalyzing := False\<rparr>),
            \<lparr>sent = done @ [buildRequest (systemStatus s) (last (telemetry s))], pending = rest\<rparr>)"
proof -
  obtain p ps where tp: "telemetry s = p # ps" using assms(1) by (cases "telemetry s") auto
  show ?thesis
    using assms(2) tp
    by (auto simp: runAiAnalysis_def analysisTry_def fetchPredict_def tryCatchFinally_analysis
          Let_def)
qed

lemma runAiAnalysis_sent:
  "length (sent (snd (runAiAnalysis ns (s, net)))) \<le> length (sent net) + 1"
  by (auto simp: runAiAnalysis_def analysisTry_def fetchPredict_def Let_def
        split: list.splits prod.splits FetchOutcome.splits sum.splits)

lemma fallbackText_not_insight: "take 12 fallbackText \<noteq> ''Risk Level: ''"
  by (simp add: fallbackText_def)

lemma upper_high: "toUpperCase ''high'' = ''HIGH''"
  by code_simp

lemma integerToString_87: "integerToString 87 = ''87''"
  by code_simp

lemma insightOf_example:
  "insightOf integerToString
     (JObj [(''risk_level'', JStr ''high''), (''risk_score'', JNum 87),
            (''recommended_action'', JStr ''Inspect spindle bearing'')])
   = Inr ''Risk Level: HIGH (87%). Inspect spindle bearing''"
  by (simp add: insightOf_def explanationText_def toStringV_def upper_high integerToString_87)

section \<open>Properties of the dashboard\<close>

text \<open>
  C1. Once the status is degraded, no run of ticks (anomalous or not) and prediction
  requests brings it back to nominal: the run completes and ends degraded. An operation
  that takes a non-nominal status to nominal is the operator's recalibration, and
  recalibration sets the status to nominal from any state.
\<close>

theorem degraded_until_recalibrate:
  "(systemStatus s = Degraded \<and> Recalibrate \<notin> set evs \<and> telemetry s \<noteq> []
      \<longrightarrow> (\<exists>s'. run s evs = Inr s' \<and> systemStatus s' = Degraded))
   \<and> (systemStatus s \<noteq> Nominal \<and> step ev s = Inr s' \<and> systemStatus s' = Nominal
      \<longrightarrow> ev = Recalibrate)
   \<and> step Recalibrate s = Inr (recalibrate s)
   \<and> systemStatus (recalibrate s) = Nominal"
proof -
  have a: "systemStatus s = Degraded \<and> Recalibrate \<notin> set evs \<and> telemetry s \<noteq> []
      \<longrightarrow> (\<exists>s'. run s evs = Inr s' \<and> systemStatus s' = Degraded)"
    using run_defined[of s evs] run_stays_degraded[of s evs] by blast
  have b: "systemStatus s \<noteq> Nominal \<and> step ev s = Inr s' \<and> systemStatus s' = Nominal
      \<longrightarrow> ev = Recalibrate"
    using step_to_nominal by blast
  show ?thesis using a b by (simp add: recalibrate_def)
qed

theorem degraded_until_recalibrate_witness:
  "systemStatus degradedConsole = Degraded
   \<and> Recalibrate \<notin> set [Tick calmTick, Tick secondAnomalyTick, Analyze integerToString [FetchRejected]]
   \<and> telemetry degradedConsole \<noteq> []
   \<and> (\<exists>s'. run degradedConsole
               [Tick calmTick, Tick secondAnomalyTick, Analyze integerToString [FetchRejected]] = Inr s'
            \<and> systemStatus s' = Degraded)
   \<and> systemStatus degradedConsole \<noteq> Nominal
   \<and> step Recalibrate degradedConsole = Inr (recalibrate degradedConsole)
   \<and> systemStatus (recalibrate degradedConsole) = Nominal"
  using degraded_until_recalibrate[of degradedConsole
          "[Tick calmTick, Tick secondAnomalyTick, Analyze integerToString [FetchRejected]]"
          Recalibrate "recalibrate degradedConsole"]
        degradedConsole_status degradedConsole_nonempty
  by simp

text \<open>
  C10 (amended). For every tick whose vibration draw \<open>r\<close> is a value of
  \<open>Math.random()\<close> (\<open>0 \<le> r < 1\<close>): an anomalous reading's vibration is
  \<open>55 + r * 25\<close> computed in doubles, an additive offset on 55 and not a multiple of
  the baseline value; it lies in the closed interval from 55 to 80, strictly above the
  critical threshold 50, and classifies as critical. A baseline reading's vibration is
  \<open>20 + r * 4\<close>; it lies in the closed interval from 20 to 24, strictly below the
  warning threshold 30, and classifies as normal. So the anomaly branch and the
  threshold classification agree on every tick.
\<close>

theorem vibration_ranges:
  assumes "0 \<le> rVib env" and "rVib env < 1"
  shows "vibration (newPoint env lastPoint) =
           (if isAnomaly env then fadd 55 (fmul (rVib env) 25) else fadd 20 (fmul (rVib env) 4))
         \<and> (if isAnomaly env
            then 55 \<le> vibration (newPoint env lastPoint) \<and> vibration (newPoint env lastPoint) \<le> 80
               \<and> vib_crit < vibration (newPoint env lastPoint)
               \<and> classifyVibration (vibration (newPoint env lastPoint)) = CriticalBand
            else 20 \<le> vibration (newPoint env lastPoint) \<and> vibration (newPoint env lastPoint) \<le> 24
               \<and> vibration (newPoint env lastPoint) < vib_warn
               \<and> classifyVibration (vibration (newPoint env lastPoint)) = Normal)"
proof (cases "isAnomaly env")
  case True
  then show ?thesis
    using anomalous_range[OF assms]
    by (simp add: newPoint_def classifyVibration_def thresholds)
next
  case False
  then show ?thesis
    using baseline_range[OF assms]
    by (simp add: newPoint_def classifyVibration_def thresholds)
qed

theorem vibration_ranges_witness:
  "0 \<le> rVib anomalyTick \<and> rVib anomalyTick < 1 \<and> isAnomaly anomalyTick
   \<and> vibration (newPoint anomalyTick samplePoint) = 245/4
   \<and> 55 \<le> vibration (newPoint anomalyTick samplePoint)
   \<and> vibration (newPoint anomalyTick samplePoint) \<le> 80
   \<and> vib_crit < vibration (newPoint anomalyTick samplePoint)
   \<and> classifyVibration (vibration (newPoint anomalyTick samplePoint)) = CriticalBand
   \<and> 0 \<le> rVib calmTick \<and> rVib calmTick < 1 \<and> \<not> isAnomaly calmTick
   \<and> vibration (newPoint calmTick samplePoint) = 22
   \<and> vibration (newPoint calmTick samplePoint) < vib_warn
   \<and> classifyVibration (vibration (newPoint calmTick samplePoint)) = Normal"
proof -
  have a: "0 \<le> rVib anomalyTick" "rVib anomalyTick < 1" by (simp_all add: anomalyTick_def)
  have c: "0 \<le> rVib calmTick" "rVib calmTick < 1" by (simp_all add: calmTick_def)
  have va: "fadd 55 (fmul (rVib anomalyTick) 25) = 245/4"
    using quarter_sum by (simp add: anomalyTick_def)
  have vc: "fadd 20 (fmul (rVib calmTick) 4) = 22"
    using half_base by (simp add: calmTick_def)
  have A: "vibration (newPoint anomalyTick samplePoint) = fadd 55 (fmul (rVib anomalyTick) 25)
         \<and> (55 \<le> vibration (newPoint anomalyTick samplePoint)
            \<and> vibration (newPoint anomalyTick samplePoint) \<le> 80
            \<and> vib_crit < vibration (newPoint anomalyTick samplePoint)
            \<and> classifyVibration (vibration (newPoint anomalyTick samplePoint)) = CriticalBand)"
    by (rule vibration_ranges[OF a, of samplePoint, unfolded if_P[OF isAnomaly_examples(1)]])
  have C: "vibration (newPoint calmTick samplePoint) = fadd 20 (fmul (rVib calmTick) 4)
         \<and> (20 \<le> vibration (newPoint calmTick samplePoint)
            \<and> vibration (newPoint calmTick samplePoint) \<le> 24
            \<and> vibration (newPoint calmTick samplePoint) < vib_warn
            \<and> classifyVibration (vibration (newPoint calmTick samplePoint)) = Normal)"
    by (rule vibration_ranges[OF c, of samplePoint, unfolded if_not_P[OF isAnomaly_examples(4)]])
  have v1: "vibration (newPoint anomalyTick samplePoint) = 245/4"
    by (rule trans[OF A[THEN conjunct1] va])
  have v2: "vibration (newPoint calmTick samplePoint) = 22"
    by (rule trans[OF C[THEN conjunct1] vc])
  show ?thesis
    using A C v1 v2 a c isAnomaly_examples(1,4) by blast
qed

text \<open>
  C10 as stated fails at the upper ends of the two ranges: when the vibration draw is the
  largest double below 1, the anomalous sum rounds to 80 itself and the baseline sum to
  24 itself, so the values are not below 80 and 24. The same holds for a generator that
  returns multiples of \<open>2 ^ -52\<close>, at its largest value.
\<close>

theorem vibration_upper_end_counterexample:
  "isAnomaly edgeTick \<and> 0 \<le> rVib edgeTick \<and> rVib edgeTick < 1
   \<and> fl (rVib edgeTick) = rVib edgeTick
   \<and> tick edgeTick (initialConsole quietRandom) \<noteq> Inl TypeError
   \<and> map vibration (generated (initialConsole quietRandom) [edgeTick]) = [80]
   \<and> \<not> vibration (newPoint edgeTick (last (telemetry (initialConsole quietRandom)))) < 80
   \<and> \<not> isAnomaly edgeCalmTick \<and> 0 \<le> rVib edgeCalmTick \<and> rVib edgeCalmTick < 1
   \<and> map vibration (generated (initialConsole quietRandom) [edgeCalmTick]) = [24]
   \<and> \<not> vibration (newPoint edgeCalmTick (last (telemetry (initialConsole quietRandom)))) < 24
   \<and> isAnomaly edgeTick52 \<and> 0 \<le> rVib edgeTick52 \<and> rVib edgeTick52 < 1
   \<and> map vibration (generated (initialConsole quietRandom) [edgeTick52]) = [80]"
proof -
  have x: "vibration (newPoint edgeTick52 p) = 80" for p
    using edge_sum52 isAnomaly_examples(6) by (simp add: newPoint_def edgeTick52_def)
  have y: "\<exists>s'. tick edgeTick52 (initialConsole quietRandom) = Inr s'"
    using tick_Inr[where s = "initialConsole quietRandom" and env = edgeTick52,
            OF initialConsole_nonempty] by blast
  have z: "0 \<le> rVib edgeTick52" "rVib edgeTick52 < 1"
    by (simp_all add: edgeTick52_def)
  have g3: "map vibration (generated (initialConsole quietRandom) [edgeTick52]) = [80]"
    using x y by auto
  have v: "vibration (newPoint edgeTick p) = 80" for p
    using edge_sum isAnomaly_examples(3) by (simp add: newPoint_def edgeTick_def)
  have w: "vibration (newPoint edgeCalmTick p) = 24" for p
    using edge_base isAnomaly_examples(5) by (simp add: newPoint_def edgeCalmTick_def)
  have t: "\<exists>s'. tick edgeTick (initialConsole quietRandom) = Inr s'"
    using tick_Inr[where s = "initialConsole quietRandom" and env = edgeTick,
            OF initialConsole_nonempty] by blast
  have u: "\<exists>s'. tick edgeCalmTick (initialConsole quietRandom) = Inr s'"
    using tick_Inr[where s = "initialConsole quietRandom" and env = edgeCalmTick,
            OF initialConsole_nonempty] by blast
  have r: "0 \<le> rVib edgeTick" "rVib edgeTick < 1" "fl (rVib edgeTick) = rVib edgeTick"
    using edge_is_double by (simp_all add: edgeTick_def)
  have q: "0 \<le> rVib edgeCalmTick" "rVib edgeCalmTick < 1"
    by (simp_all add: edgeCalmTick_def)
  have g1: "map vibration (generated (initialConsole quietRandom) [edgeTick]) = [80]"
    using v t by auto
  have g2: "map vibration (generated (initialConsole quietRandom) [edgeCalmTick]) = [24]"
    using w u by auto
  have t': "tick edgeTick (initialConsole quietRandom) \<noteq> Inl TypeError" using t by auto
  show ?thesis
    using v w r q g1 g2 t' z g3 isAnomaly_examples(3,5,6) by simp
qed

text \<open>
  C2. On every tick with an anomalous reading: if the status is nominal, the status
  becomes degraded and exactly one entry is put on the log, of type critical, whose
  message carries the vibration value of the reading just generated (printed by
  \<open>toFixed(1)\<close>); if the status is not nominal (it is degraded), the status and the log
  are left as they were.
\<close>

theorem anomaly_escalates_once:
  assumes "telemetry s \<noteq> []" and "isAnomaly env"
  shows "\<exists>s'. tick env s = Inr s'
           \<and> (if systemStatus s = Nominal
              then systemStatus s' = Degraded
                 \<and> logs s' = take 15 (\<lparr>entry_id = logId env, timestamp = logTimestamp env,
                       message = ''Anomaly: Spindle vibration threshold exceeded (''
                                   @ toFixed 1 (vibration (last (telemetry s'))) @ ''Hz)'',
                       entry_type = TCritical\<rparr> # logs s)
                 \<and> length (logs s') = min 15 (length (logs s) + 1)
              else systemStatus s' = systemStatus s \<and> logs s' = logs s)"
proof -
  obtain s' where t: "tick env s = Inr s'" using tick_Inr[OF assms(1)] by blast
  have l: "last (telemetry s') = newPoint env (last (telemetry s))" by (rule tick_last[OF t])
  show ?thesis
  proof (cases "systemStatus s = Nominal")
    case True
    have "logs s' = addLog (logId env) (logTimestamp env) TCritical
                      (anomalyMessage (newPoint env (last (telemetry s)))) (logs s)"
      using tick_logs[OF t] assms(2) True by simp
    then show ?thesis
      using t l True tick_status[OF t] assms(2)
      by (simp add: addLog_def anomalyMessage_def)
  next
    case False
    then show ?thesis using t tick_status[OF t] tick_logs[OF t] by simp
  qed
qed

theorem anomaly_escalates_once_witness:
  "telemetry (initialConsole quietRandom) \<noteq> [] \<and> isAnomaly anomalyTick
   \<and> systemStatus (initialConsole quietRandom) = Nominal
   \<and> tick anomalyTick (initialConsole quietRandom) = Inr degradedConsole
   \<and> systemStatus degradedConsole = Degraded
   \<and> logs (initialConsole quietRandom) = []
   \<and> logs degradedConsole =
       [\<lparr>entry_id = ''p0w8c2m5a'', timestamp = ''10:00'',
         message = ''Anomaly: Spindle vibration threshold exceeded (61.3Hz)'',
         entry_type = TCritical\<rparr>]
   \<and> telemetry degradedConsole \<noteq> [] \<and> isAnomaly secondAnomalyTick
   \<and> (\<exists>s'. tick secondAnomalyTick degradedConsole = Inr s'
           \<and> systemStatus s' = Degraded \<and> logs s' = logs degradedConsole)"
proof -
  have 1: "\<exists>s'. tick anomalyTick (initialConsole quietRandom) = Inr s'
           \<and> systemStatus s' = Degraded
           \<and> length (logs s') = min 15 (length (logs (initialConsole quietRandom)) + 1)"
    using anomaly_escalates_once[OF initialConsole_nonempty isAnomaly_examples(1), of quietRandom]
    by (auto simp: initialConsole_def)
  have 2: "\<exists>s'. tick secondAnomalyTick degradedConsole = Inr s'
           \<and> systemStatus s' = Degraded \<and> logs s' = logs degradedConsole"
    using anomaly_escalates_once[OF degradedConsole_nonempty isAnomaly_examples(2)]
          degradedConsole_status by auto
  show ?thesis
    using 1 2 initialConsole_nonempty isAnomaly_examples(1,2) tick_anomalyTick
          degradedConsole_status degradedConsole_logs degradedConsole_nonempty
    by (simp add: initialConsole_def)
qed

text \<open>
  C3. Appending to a log puts the new entry in front of the list and cuts the result to
  the maximum count, 15 in the console and 100 in the full log view. So the length never
  exceeds the maximum, in one append and in every state a run reaches; the new entry is
  first and the older entries follow in the order they had; and what is cut off is the
  tail of the list, its oldest entries.
\<close>

theorem log_append_truncates:
  "addLog i t ty m l = take 15 (\<lparr>entry_id = i, timestamp = t, message = m, entry_type = ty\<rparr> # l)
   \<and> kernelLogsTick env kl = take 100 (newLog env # kl)
   \<and> length (addLog i t ty m l) \<le> 15
   \<and> length (kernelLogsTick env kl) \<le> 100
   \<and> addLog i t ty m l = \<lparr>entry_id = i, timestamp = t, message = m, entry_type = ty\<rparr> # take 14 l
   \<and> kernelLogsTick env kl = newLog env # take 99 kl
   \<and> addLog i t ty m l @ drop 14 l = \<lparr>entry_id = i, timestamp = t, message = m, entry_type = ty\<rparr> # l
   \<and> kernelLogsTick env kl @ drop 99 kl = newLog env # kl
   \<and> (\<exists>s'. run (initialConsole rnd) evs = Inr s' \<and> length (logs s') \<le> 15)
   \<and> length (kernelLogsRun (MOCK_LOGS clock) kevs) \<le> 100"
proof -
  obtain s' where r: "run (initialConsole rnd) evs = Inr s'"
    using run_defined[OF initialConsole_nonempty] by blast
  have "length (logs s') \<le> 15"
    using run_logs_bounded[OF _ r] by (simp add: initialConsole_def)
  then have a: "\<exists>s'. run (initialConsole rnd) evs = Inr s' \<and> length (logs s') \<le> 15"
    using r by blast
  have b: "length (kernelLogsRun (MOCK_LOGS clock) kevs) \<le> 100"
    using kernelLogsRun_bounded[of "MOCK_LOGS clock" kevs] by (simp add: MOCK_LOGS_length)
  show ?thesis
    using a b by (simp add: addLog_def kernelLogsTick_def)
qed

theorem log_append_truncates_witness:
  "addLog ''t7y1b4n6e'' ''10:01'' TWarning ''Operator note'' (logs degradedConsole) =
     [\<lparr>entry_id = ''t7y1b4n6e'', timestamp = ''10:01'', message = ''Operator note'',
       entry_type = TWarning\<rparr>,
      \<lparr>entry_id = ''p0w8c2m5a'', timestamp = ''10:00'',
       message = ''Anomaly: Spindle vibration threshold exceeded (61.3Hz)'',
       entry_type = TCritical\<rparr>]
   \<and> length (addLog ''t7y1b4n6e'' ''10:01'' TWarning ''Operator note'' (logs degradedConsole)) \<le> 15
   \<and> kernelLogsTick kernelTick (MOCK_LOGS loadClock) = newLog kernelTick # MOCK_LOGS loadClock
   \<and> length (kernelLogsTick kernelTick (MOCK_LOGS loadClock)) = 11
   \<and> length (kernelLogsRun (MOCK_LOGS loadClock) (replicate 120 (NewLog kernelTick))) \<le> 100"
  using log_append_truncates[of "''t7y1b4n6e''" "''10:01''" TWarning "''Operator note''"
          "logs degradedConsole" kernelTick "MOCK_LOGS loadClock" quietRandom "[]" loadClock
          "replicate 120 (NewLog kernelTick)"]
        degradedConsole_logs MOCK_LOGS_length[of loadClock]
  by simp

text \<open>
  C4 (amended). The console's buffer starts with 40 points and holds 40 after every tick;
  after a run of ticks it is the last 40 of the initial points followed by the generated
  ones, in the order of arrival, and once 40 or more have been generated it is exactly
  the last 40 generated. In the live-telemetry chart every arrived reading is appended
  to the last 49 held, so after a run of \<open>fetchLatest\<close> answers the chart is the last
  50 of what it held before followed by the arrived readings, at most 50 as soon as one
  has arrived, and exactly the last 50 arrived once 50 or more have come. A history
  answer, whenever it lands, replaces the whole chart by the readings of the answer, as
  many as they are; the chart stays within 50 as long as every history answer does.
\<close>

theorem rolling_buffers_keep_last:
  assumes "length (telemetry s) = 40"
  shows "(\<exists>s'. run s (map Tick envs) = Inr s'
            \<and> length (telemetry s') = 40
            \<and> length (generated s envs) = length envs
            \<and> telemetry s' = sliceLast 40 (telemetry s @ generated s envs)
            \<and> (40 \<le> length envs \<longrightarrow> telemetry s' = sliceLast 40 (generated s envs)))
         \<and> telemetryData (liveRun st (map (case_prod LatestAnswer) lats)) =
             (if arrived lats = [] then telemetryData st
              else sliceLast 50 (telemetryData st @ arrived lats))
         \<and> (arrived lats \<noteq> []
              \<longrightarrow> length (telemetryData (liveRun st (map (case_prod LatestAnswer) lats))) \<le> 50)
         \<and> (50 \<le> length (arrived lats)
              \<longrightarrow> telemetryData (liveRun st (map (case_prod LatestAnswer) lats))
                    = sliceLast 50 (arrived lats))
         \<and> length (telemetryData (fetchLatest now (Document rd) anySt)) \<le> 50
         \<and> telemetryData (liveRun st (evs @ [HistoryAnswer (Document d)])) =
             (case d of None \<Rightarrow> [] | Some xs \<Rightarrow> xs)
         \<and> liveRun st (evs @ evs') = liveRun (liveRun st evs) evs'
         \<and> (length (telemetryData st) \<le> 50 \<and> list_all withinLimit evs
              \<longrightarrow> length (telemetryData (liveRun st evs)) \<le> 50)"
proof -
  have ne: "telemetry s \<noteq> []" using assms(1) by auto
  have any: "length (telemetryData (fetchLatest now (Document rd) anySt)) \<le> 50"
    by (simp add: fetchLatest_data sliceLast_length)
  obtain s' where r: "run s (map Tick envs) = Inr s'"
    and b: "telemetry s' = sliceLast 40 (telemetry s @ generated s envs)"
    using run_ticks_buffer[OF assms(1)] by blast
  have g: "length (generated s envs) = length envs" by (rule generated_length[OF ne])
  have l: "length (telemetry s') = 40" using b assms(1) by (simp add: sliceLast_length)
  have k: "40 \<le> length envs \<longrightarrow> telemetry s' = sliceLast 40 (generated s envs)"
    using b g sliceLast_append_long[of 40 "generated s envs" "telemetry s"] by simp
  have d: "telemetryData (liveRun st (map (case_prod LatestAnswer) lats)) =
             (if arrived lats = [] then telemetryData st
              else sliceLast 50 (telemetryData st @ arrived lats))"
    by (rule liveRun_latest)
  have dl: "arrived lats \<noteq> []
              \<longrightarrow> length (telemetryData (liveRun st (map (case_prod LatestAnswer) lats))) \<le> 50"
    using d by (simp add: sliceLast_length)
  have dk: "50 \<le> length (arrived lats)
              \<longrightarrow> telemetryData (liveRun st (map (case_prod LatestAnswer) lats))
                    = sliceLast 50 (arrived lats)"
    using d sliceLast_append_long[of 50 "arrived lats" "telemetryData st"] by auto
  have h: "telemetryData (liveRun st (evs @ [HistoryAnswer (Document d)])) =
             (case d of None \<Rightarrow> [] | Some xs \<Rightarrow> xs)"
    by (rule liveRun_history_last)
  have c: "liveRun st (evs @ evs') = liveRun (liveRun st evs) evs'"
    by (rule liveRun_append)
  have w: "length (telemetryData st) \<le> 50 \<and> list_all withinLimit evs
              \<longrightarrow> length (telemetryData (liveRun st evs)) \<le> 50"
    using liveRun_within[of st evs] by blast
  show ?thesis using r b g l k d dl dk any h c w by blast
qed

theorem rolling_buffers_keep_last_witness:
  "length (telemetry (initialConsole quietRandom)) = 40
   \<and> 40 \<le> length (replicate 41 calmTick)
   \<and> (\<exists>s'. run (initialConsole quietRandom) (map Tick (replicate 41 calmTick)) = Inr s'
          \<and> length (telemetry s') = 40
          \<and> telemetry s' = sliceLast 40 (generated (initialConsole quietRandom) (replicate 41 calmTick))
          \<and> map time (telemetry s') = replicate 40 ''10:00:03'')
   \<and> arrived (replicate 51 (''12:00:00'', Document (Some boundaryReading))) \<noteq> []
   \<and> 50 \<le> length (arrived (replicate 51 (''12:00:00'', Document (Some boundaryReading))))
   \<and> telemetryData (liveRun emptyLive (replicate 51 (LatestAnswer ''12:00:00'' (Document (Some boundaryReading)))))
       = replicate 50 boundaryReading
   \<and> length (telemetryData emptyLive) \<le> 50
   \<and> list_all withinLimit
        [HistoryAnswer (Document (Some (replicate 50 historyReading))),
         LatestAnswer ''12:00:00'' (Document (Some boundaryReading)),
         HistoryAnswer Rejected]
   \<and> length (telemetryData (liveRun emptyLive
        [HistoryAnswer (Document (Some (replicate 50 historyReading))),
         LatestAnswer ''12:00:00'' (Document (Some boundaryReading)),
         HistoryAnswer Rejected])) \<le> 50
   \<and> telemetryData (liveRun emptyLive
        ([LatestAnswer ''12:00:00'' (Document (Some boundaryReading))]
         @ [HistoryAnswer (Document (Some [historyReading]))])) = [historyReading]"
proof -
  have a: "length (telemetry (initialConsole quietRandom)) = 40"
    by (simp add: initialConsole_def initialTelemetry_length)
  have b: "length (telemetryData emptyLive) \<le> 50" by (simp add: emptyLive_def)
  have c: "arrived (replicate 51 (''12:00:00'', Document (Some boundaryReading)))
             = replicate 51 boundaryReading"
    by (simp add: arrived_replicate spreadReading_def boundaryReading_def)
  have d: "sliceLast 50 (replicate 51 boundaryReading) = replicate 50 boundaryReading"
    by (simp add: sliceLast_def)
  have e: "40 \<le> length (replicate 41 calmTick)" by simp
  have f: "50 \<le> length (arrived (replicate 51 (''12:00:00'', Document (Some boundaryReading))))"
    using c by simp
  have f': "arrived (replicate 51 (''12:00:00'', Document (Some boundaryReading))) \<noteq> []"
    using c by simp
  have m: "map (case_prod LatestAnswer) (replicate 51 (''12:00:00'', Document (Some boundaryReading)))
             = replicate 51 (LatestAnswer ''12:00:00'' (Document (Some boundaryReading)))"
    by simp
  have wl: "list_all withinLimit
        [HistoryAnswer (Document (Some (replicate 50 historyReading))),
         LatestAnswer ''12:00:00'' (Document (Some boundaryReading)),
         HistoryAnswer Rejected]"
    by simp
  note T = rolling_buffers_keep_last[OF a, of "replicate 41 calmTick" emptyLive
            "replicate 51 (''12:00:00'', Document (Some boundaryReading))"
            "''12:00:00''" "Some boundaryReading" emptyLive
            "[HistoryAnswer (Document (Some (replicate 50 historyReading))),
              LatestAnswer ''12:00:00'' (Document (Some boundaryReading)),
              HistoryAnswer Rejected]"
            "Some [historyReading]" "[]"]
  note U = rolling_buffers_keep_last[OF a, of "replicate 41 calmTick" emptyLive
            "replicate 51 (''12:00:00'', Document (Some boundaryReading))"
            "''12:00:00''" "Some boundaryReading" emptyLive
            "[LatestAnswer ''12:00:00'' (Document (Some boundaryReading))]"
            "Some [historyReading]" "[]"]
  have gt: "map time (sliceLast 40 (generated (initialConsole quietRandom) (replicate 41 calmTick)))
              = replicate 40 ''10:00:03''"
  proof -
    have g: "map time (generated (initialConsole quietRandom) (replicate 41 calmTick))
               = replicate 41 ''10:00:03''"
      using generated_time[OF initialConsole_nonempty, of quietRandom "replicate 41 calmTick"]
      by (simp add: calmTick_def)
    have "map time (sliceLast 40 (generated (initialConsole quietRandom) (replicate 41 calmTick)))
            = sliceLast 40 (map time (generated (initialConsole quietRandom) (replicate 41 calmTick)))"
      by (simp add: sliceLast_def drop_map)
    also have "\<dots> = sliceLast 40 (replicate 41 ''10:00:03'')" by (simp only: g)
    also have "\<dots> = replicate 40 ''10:00:03''" by (simp add: sliceLast_def)
    finally show ?thesis .
  qed
  have 1: "\<exists>s'. run (initialConsole quietRandom) (map Tick (replicate 41 calmTick)) = Inr s'
          \<and> length (telemetry s') = 40
          \<and> telemetry s' = sliceLast 40 (generated (initialConsole quietRandom) (replicate 41 calmTick))
          \<and> map time (telemetry s') = replicate 40 ''10:00:03''"
    using T[THEN conjunct1] e gt by auto
  have "telemetryData (liveRun emptyLive
            (map (case_prod LatestAnswer) (replicate 51 (''12:00:00'', Document (Some boundaryReading)))))
          = sliceLast 50 (arrived (replicate 51 (''12:00:00'', Document (Some boundaryReading))))"
    using T f by blast
  then have 2: "telemetryData (liveRun emptyLive (replicate 51 (LatestAnswer ''12:00:00'' (Document (Some boundaryReading)))))
       = replicate 50 boundaryReading"
    unfolding m c d .
  have 3: "length (telemetryData (liveRun emptyLive
        [HistoryAnswer (Document (Some (replicate 50 historyReading))),
         LatestAnswer ''12:00:00'' (Document (Some boundaryReading)),
         HistoryAnswer Rejected])) \<le> 50"
    using T b wl by blast
  have "telemetryData (liveRun emptyLive
        ([LatestAnswer ''12:00:00'' (Document (Some boundaryReading))]
         @ [HistoryAnswer (Document (Some [historyReading]))]))
        = (case Some [historyReading] of None \<Rightarrow> [] | Some xs \<Rightarrow> xs)"
    using U by blast
  then have 4: "telemetryData (liveRun emptyLive
        ([LatestAnswer ''12:00:00'' (Document (Some boundaryReading))]
         @ [HistoryAnswer (Document (Some [historyReading]))])) = [historyReading]"
    by simp
  show ?thesis using a b e f f' wl 1 2 3 4 by blast
qed

text \<open>
  C4 as stated fails in the live-telemetry chart. A history answer of 60 readings is held
  whole, ten more than the capacity. And a history answer that lands after two readings
  have arrived replaces them: when 48 more have arrived, 50 readings have been generated
  and the chart holds 49, the first of them a reading of the history and not one of the
  last 50 generated.
\<close>

theorem history_answer_counterexample:
  "length (telemetryData (liveRun emptyLive
             [HistoryAnswer (Document (Some (replicate 60 historyReading)))])) = 60
   \<and> length (arrived (replicate 2 (''12:00:00'', Document (Some boundaryReading))
                      @ replicate 48 (''12:00:02'', Document (Some boundaryReading)))) = 50
   \<and> telemetryData (liveRun emptyLive
        (replicate 2 (LatestAnswer ''12:00:00'' (Document (Some boundaryReading)))
         @ [HistoryAnswer (Document (Some [historyReading]))]
         @ replicate 48 (LatestAnswer ''12:00:02'' (Document (Some boundaryReading)))))
     = historyReading # replicate 48 boundaryReading
   \<and> historyReading \<noteq> boundaryReading"
proof -
  have 1: "length (telemetryData (liveRun emptyLive
             [HistoryAnswer (Document (Some (replicate 60 historyReading)))])) = 60"
    by (simp add: fetchTelemetry_def)
  have c: "arrived (replicate n (t, Document (Some boundaryReading))) = replicate n boundaryReading"
    for n t
    by (simp add: arrived_replicate spreadReading_def boundaryReading_def)
  have 2: "length (arrived (replicate 2 (''12:00:00'', Document (Some boundaryReading))
                      @ replicate 48 (''12:00:02'', Document (Some boundaryReading)))) = 50"
  proof -
    have "arrived (xs @ ys) = arrived xs @ arrived ys" for xs ys
      by (induction xs rule: arrived.induct) simp_all
    then show ?thesis using c by simp
  qed
  define st1 where "st1 = liveRun emptyLive
        (replicate 2 (LatestAnswer ''12:00:00'' (Document (Some boundaryReading)))
         @ [HistoryAnswer (Document (Some [historyReading]))])"
  have h: "telemetryData st1 = [historyReading]"
    unfolding st1_def using liveRun_history_last[of emptyLive
        "replicate 2 (LatestAnswer ''12:00:00'' (Document (Some boundaryReading)))"
        "Some [historyReading]"] by simp
  have m: "map (case_prod LatestAnswer) (replicate 48 (''12:00:02'', Document (Some boundaryReading)))
             = replicate 48 (LatestAnswer ''12:00:02'' (Document (Some boundaryReading)))"
    by simp
  have "telemetryData (liveRun st1
          (map (case_prod LatestAnswer) (replicate 48 (''12:00:02'', Document (Some boundaryReading)))))
        = sliceLast 50 (telemetryData st1 @ replicate 48 boundaryReading)"
    using liveRun_latest[of st1 "replicate 48 (''12:00:02'', Document (Some boundaryReading))"] c
    by simp
  then have "telemetryData (liveRun st1
          (replicate 48 (LatestAnswer ''12:00:02'' (Document (Some boundaryReading)))))
        = historyReading # replicate 48 boundaryReading"
    unfolding m h by (simp add: sliceLast_def)
  then have 3: "telemetryData (liveRun emptyLive
        (replicate 2 (LatestAnswer ''12:00:00'' (Document (Some boundaryReading)))
         @ [HistoryAnswer (Document (Some [historyReading]))]
         @ replicate 48 (LatestAnswer ''12:00:02'' (Document (Some boundaryReading)))))
     = historyReading # replicate 48 boundaryReading"
    unfolding st1_def
    using liveRun_append[of emptyLive
        "replicate 2 (LatestAnswer ''12:00:00'' (Document (Some boundaryReading)))
         @ [HistoryAnswer (Document (Some [historyReading]))]"
        "replicate 48 (LatestAnswer ''12:00:02'' (Document (Some boundaryReading)))"]
    by simp
  have 4: "historyReading \<noteq> boundaryReading"
    by (simp add: historyReading_def boundaryReading_def)
  show ?thesis using 1 2 3 4 by blast
qed

text \<open>
  C9. The status type has three values, but the console never sets \<open>critical\<close>: every
  run of ticks, recalibrations and prediction requests from the initial state completes
  in a state whose status is nominal or degraded. Both are reached: the initial state is
  nominal, and one anomalous tick from it gives degraded.
\<close>

theorem critical_status_unreachable:
  "(\<exists>s'. run (initialConsole rnd) evs = Inr s'
          \<and> systemStatus s' \<noteq> Critical
          \<and> (systemStatus s' = Nominal \<or> systemStatus s' = Degraded))
   \<and> systemStatus (initialConsole rnd) = Nominal
   \<and> (\<exists>s'. run (initialConsole rnd) [Tick anomalyTick] = Inr s' \<and> systemStatus s' = Degraded)"
proof -
  have n: "systemStatus (initialConsole rnd) = Nominal" by (simp add: initialConsole_def)
  obtain s' where r: "run (initialConsole rnd) evs = Inr s'"
    using run_defined[OF initialConsole_nonempty] by blast
  have c: "systemStatus s' \<noteq> Critical" using run_never_critical[OF _ r] n by simp
  then have d: "systemStatus s' = Nominal \<or> systemStatus s' = Degraded"
    by (cases "systemStatus s'") simp_all
  obtain s1 where t: "tick anomalyTick (initialConsole rnd) = Inr s1"
    using tick_Inr[where s = "initialConsole rnd" and env = anomalyTick,
            OF initialConsole_nonempty] by blast
  have "systemStatus s1 = Degraded"
    using tick_status[OF t] isAnomaly_examples(1) n by simp
  then show ?thesis using r c d n t by auto
qed

theorem critical_status_unreachable_witness:
  "(\<exists>s'. run (initialConsole quietRandom)
            [Tick calmTick, Tick anomalyTick, Analyze integerToString [JsonRejected],
             Recalibrate, Tick secondAnomalyTick] = Inr s'
          \<and> systemStatus s' \<noteq> Critical)
   \<and> systemStatus (initialConsole quietRandom) = Nominal
   \<and> (\<exists>s'. run (initialConsole quietRandom) [Tick anomalyTick] = Inr s' \<and> systemStatus s' = Degraded)"
  using critical_status_unreachable[of quietRandom
          "[Tick calmTick, Tick anomalyTick, Analyze integerToString [JsonRejected],
            Recalibrate, Tick secondAnomalyTick]"]
  by blast

text \<open>
  C5. A prediction request whose fetch rejects, whose response body does not parse, or
  whose document yields no insight leaves the fixed fallback text in the insight slot
  (the slot a successful request fills with its rendered result) and clears the busy
  flag; nothing else of the state changes. Exactly one request has been sent and the
  next answer of the network is left untouched, whatever it would have been: there is no
  retry. For every state and every network the operation returns a state: no error
  leaves it.
\<close>

theorem failed_request_falls_back:
  assumes "telemetry s \<noteq> []"
    and "out = FetchRejected \<or> out = JsonRejected \<or> (\<exists>d e. out = JsonBody d \<and> insightOf ns d = Inl e)"
  shows "runAiAnalysis ns (s, \<lparr>sent = done, pending = out # rest\<rparr>) =
           (Inr (s\<lparr>aiInsight := Some fallbackText, isAiAnalyzing := False\<rparr>),
            \<lparr>sent = done @ [buildRequest (systemStatus s) (last (telemetry s))], pending = rest\<rparr>)
         \<and> fallbackText = ''AI Uplink Failed. Switching to manual override.''
         \<and> \<not> isl (fst (runAiAnalysis ns (s0, net)))
         \<and> length (sent (snd (runAiAnalysis ns (s0, net)))) \<le> length (sent net) + 1"
proof -
  have b: "\<not> isl (fst (runAiAnalysis ns (s0, net)))"
    using runAiAnalysis_result[of ns s0 net] by auto
  show ?thesis
    using runAiAnalysis_failure[OF assms] b runAiAnalysis_sent[of ns s0 net]
    by (simp add: fallbackText_def)
qed

theorem failed_request_falls_back_witness:
  "telemetry (initialConsole quietRandom) \<noteq> []
   \<and> runAiAnalysis integerToString
       (initialConsole quietRandom,
        \<lparr>sent = [],
         pending = [FetchRejected,
                    JsonBody (JObj [(''risk_level'', JStr ''high''), (''risk_score'', JNum 87),
                                    (''recommended_action'', JStr ''Inspect spindle bearing'')])]\<rparr>)
     = (Inr ((initialConsole quietRandom)
               \<lparr>aiInsight := Some ''AI Uplink Failed. Switching to manual override.'',
                isAiAnalyzing := False\<rparr>),
        \<lparr>sent = [buildRequest Nominal (last (telemetry (initialConsole quietRandom)))],
         pending = [JsonBody (JObj [(''risk_level'', JStr ''high''), (''risk_score'', JNum 87),
                                    (''recommended_action'', JStr ''Inspect spindle bearing'')])]\<rparr>)"
proof -
  have n: "systemStatus (initialConsole quietRandom) = Nominal" by (simp add: initialConsole_def)
  show ?thesis
    using failed_request_falls_back[OF initialConsole_nonempty, of FetchRejected integerToString
            quietRandom "[]"
            "[JsonBody (JObj [(''risk_level'', JStr ''high''), (''risk_score'', JNum 87),
                              (''recommended_action'', JStr ''Inspect spindle bearing'')])]"]
          initialConsole_nonempty n
    by simp
qed

text \<open>
  C6 (amended). A prediction response whose \<open>risk_level\<close> is missing or is not a
  string does not crash the console: the error is caught by the handler that also
  catches a failed fetch, so the console ends in the same state as when the service is
  unreachable, with the fixed fallback text in the insight slot. A response that does
  yield an insight is told apart from the fallback: its text begins
  \<open>Risk Level: \<close>, which the fallback text does not.
\<close>

theorem malformed_response_gets_fallback:
  assumes "telemetry s \<noteq> []"
    and "\<forall>str. getProp data ''risk_level'' \<noteq> Inr (Some (JStr str))"
  shows "runAiAnalysis ns (s, \<lparr>sent = done, pending = JsonBody data # rest\<rparr>) =
           runAiAnalysis ns (s, \<lparr>sent = done, pending = FetchRejected # rest\<rparr>)
         \<and> fst (runAiAnalysis ns (s, \<lparr>sent = done, pending = JsonBody data # rest\<rparr>)) =
             Inr (s\<lparr>aiInsight := Some fallbackText, isAiAnalyzing := False\<rparr>)
         \<and> (insightOf ns good = Inr ins \<longrightarrow>
              fst (runAiAnalysis ns (s, \<lparr>sent = done, pending = JsonBody good # rest\<rparr>)) =
                Inr (s\<lparr>aiInsight := Some ins, isAiAnalyzing := False\<rparr>)
              \<and> take 12 ins = ''Risk Level: '' \<and> ins \<noteq> fallbackText)"
proof -
  have e: "insightOf ns data = Inl TypeError" by (rule insightOf_no_risk_level[OF assms(2)])
  have a: "runAiAnalysis ns (s, \<lparr>sent = done, pending = JsonBody data # rest\<rparr>) =
           (Inr (s\<lparr>aiInsight := Some fallbackText, isAiAnalyzing := False\<rparr>),
            \<lparr>sent = done @ [buildRequest (systemStatus s) (last (telemetry s))], pending = rest\<rparr>)"
    using runAiAnalysis_failure[OF assms(1), of "JsonBody data" ns "done" rest] e by simp
  have b: "runAiAnalysis ns (s, \<lparr>sent = done, pending = FetchRejected # rest\<rparr>) =
           (Inr (s\<lparr>aiInsight := Some fallbackText, isAiAnalyzing := False\<rparr>),
            \<lparr>sent = done @ [buildRequest (systemStatus s) (last (telemetry s))], pending = rest\<rparr>)"
    using runAiAnalysis_failure[OF assms(1), of FetchRejected ns "done" rest] by simp
  have c: "insightOf ns good = Inr ins \<longrightarrow>
              fst (runAiAnalysis ns (s, \<lparr>sent = done, pending = JsonBody good # rest\<rparr>)) =
                Inr (s\<lparr>aiInsight := Some ins, isAiAnalyzing := False\<rparr>)
              \<and> take 12 ins = ''Risk Level: '' \<and> ins \<noteq> fallbackText"
    using runAiAnalysis_success[OF assms(1), of ns good ins "done" rest]
          insightOf_prefix[of ns good ins] fallbackText_not_insight
    by auto
  show ?thesis using a b c by simp
qed

theorem malformed_response_gets_fallback_witness:
  "telemetry (initialConsole quietRandom) \<noteq> []
   \<and> getProp (JObj [(''error'', JObj [(''code'', JStr ''MODEL_ERROR'')])]) ''risk_level'' = Inr None
   \<and> fst (runAiAnalysis integerToString
            (initialConsole quietRandom,
             \<lparr>sent = [], pending = [JsonBody (JObj [(''error'', JObj [(''code'', JStr ''MODEL_ERROR'')])])]\<rparr>))
       = Inr ((initialConsole quietRandom)
               \<lparr>aiInsight := Some ''AI Uplink Failed. Switching to manual override.'',
                isAiAnalyzing := False\<rparr>)
   \<and> insightOf integerToString
         (JObj [(''risk_level'', JStr ''high''), (''risk_score'', JNum 87),
                (''recommended_action'', JStr ''Inspect spindle bearing'')])
       = Inr ''Risk Level: HIGH (87%). Inspect spindle bearing''
   \<and> fst (runAiAnalysis integerToString
            (initialConsole quietRandom,
             \<lparr>sent = [],
              pending = [JsonBody (JObj [(''risk_level'', JStr ''high''), (''risk_score'', JNum 87),
                                         (''recommended_action'', JStr ''Inspect spindle bearing'')])]\<rparr>))
       = Inr ((initialConsole quietRandom)
               \<lparr>aiInsight := Some ''Risk Level: HIGH (87%). Inspect spindle bearing'',
                isAiAnalyzing := False\<rparr>)"
proof -
  have g: "\<forall>str. getProp (JObj [(''error'', JObj [(''code'', JStr ''MODEL_ERROR'')])]) ''risk_level''
             \<noteq> Inr (Some (JStr str))"
    by simp
  note T = malformed_response_gets_fallback[OF initialConsole_nonempty g,
            of integerToString quietRandom "[]" "[]"
            "JObj [(''risk_level'', JStr ''high''), (''risk_score'', JNum 87),
                   (''recommended_action'', JStr ''Inspect spindle bearing'')]"
            "''Risk Level: HIGH (87%). Inspect spindle bearing''"]
  have 1: "fst (runAiAnalysis integerToString
            (initialConsole quietRandom,
             \<lparr>sent = [], pending = [JsonBody (JObj [(''error'', JObj [(''code'', JStr ''MODEL_ERROR'')])])]\<rparr>))
       = Inr ((initialConsole quietRandom)
               \<lparr>aiInsight := Some ''AI Uplink Failed. Switching to manual override.'',
                isAiAnalyzing := False\<rparr>)"
    by (rule T[THEN conjunct2, THEN conjunct1, unfolded fallbackText_def])
  have 2: "fst (runAiAnalysis integerToString
            (initialConsole quietRandom,
             \<lparr>sent = [],
              pending = [JsonBody (JObj [(''risk_level'', JStr ''high''), (''risk_score'', JNum 87),
                                         (''recommended_action'', JStr ''Inspect spindle bearing'')])]\<rparr>))
       = Inr ((initialConsole quietRandom)
               \<lparr>aiInsight := Some ''Risk Level: HIGH (87%). Inspect spindle bearing'',
                isAiAnalyzing := False\<rparr>)"
    by (rule T[THEN conjunct2, THEN conjunct2, THEN mp, OF insightOf_example, THEN conjunct1])
  have 3: "getProp (JObj [(''error'', JObj [(''code'', JStr ''MODEL_ERROR'')])]) ''risk_level'' = Inr None"
    by simp
  show ?thesis
    using 1 2 3 initialConsole_nonempty[of quietRandom] insightOf_example by blast
qed

text \<open>
  C6 as stated fails: a response without \<open>risk_level\<close> and an unreachable service
  leave the console in one and the same state, showing the fallback text.
\<close>

theorem malformed_response_counterexample:
  "fst (runAiAnalysis integerToString
          (initialConsole quietRandom,
           \<lparr>sent = [], pending = [JsonBody (JObj [(''risk_score'', JNum 42)])]\<rparr>))
   = fst (runAiAnalysis integerToString
            (initialConsole quietRandom, \<lparr>sent = [], pending = [FetchRejected]\<rparr>))
   \<and> fst (runAiAnalysis integerToString
            (initialConsole quietRandom,
             \<lparr>sent = [], pending = [JsonBody (JObj [(''risk_score'', JNum 42)])]\<rparr>))
     = Inr ((initialConsole quietRandom)
             \<lparr>aiInsight := Some ''AI Uplink Failed. Switching to manual override.'',
              isAiAnalyzing := False\<rparr>)"
proof -
  have e: "insightOf integerToString (JObj [(''risk_score'', JNum 42)]) = Inl TypeError"
    by (rule insightOf_no_risk_level) simp
  show ?thesis
    using runAiAnalysis_failure[OF initialConsole_nonempty,
            of "JsonBody (JObj [(''risk_score'', JNum 42)])" integerToString quietRandom "[]" "[]"]
          runAiAnalysis_failure[OF initialConsole_nonempty,
            of FetchRejected integerToString quietRandom "[]" "[]"] e
    by (simp add: fallbackText_def)
qed

text \<open>
  C7 (amended). The console's log changes only by \<open>addLog\<close>: a step leaves it as it
  is or puts one entry in front and cuts the list to 15. The log of the full log view
  changes by the same kind of append, cut to 100, and by the operator's clear button,
  which empties it. No operation alters an entry that stays: what follows the new entry
  is a prefix of the log as it was.
\<close>

theorem log_operations:
  "kernelLogsStep kev kl = (case kev of NewLog env \<Rightarrow> take 100 (newLog env # kl) | ClearLogs \<Rightarrow> [])
   \<and> (kernelLogsStep kev kl = [] \<or> tl (kernelLogsStep kev kl) = take 99 kl)
   \<and> (step ev s = Inr s' \<longrightarrow>
        logs s' = logs s \<or> (\<exists>e. logs s' = take 15 (e # logs s) \<and> tl (logs s') = take 14 (logs s)))"
proof -
  have a: "kernelLogsStep kev kl =
             (case kev of NewLog env \<Rightarrow> take 100 (newLog env # kl) | ClearLogs \<Rightarrow> [])"
    by (cases kev) (simp_all add: kernelLogsTick_def clearLogs_def)
  have b: "kernelLogsStep kev kl = [] \<or> tl (kernelLogsStep kev kl) = take 99 kl"
    by (cases kev) (simp_all add: kernelLogsTick_def clearLogs_def)
  have c: "step ev s = Inr s' \<longrightarrow>
        logs s' = logs s \<or> (\<exists>e. logs s' = take 15 (e # logs s) \<and> tl (logs s') = take 14 (logs s))"
  proof
    assume st: "step ev s = Inr s'"
    show "logs s' = logs s \<or> (\<exists>e. logs s' = take 15 (e # logs s) \<and> tl (logs s') = take 14 (logs s))"
      using step_logs[OF st] by (cases ev) (auto simp: addLog_def)
  qed
  show ?thesis using a b c by blast
qed

theorem log_operations_witness:
  "kernelLogsStep (NewLog kernelTick) (MOCK_LOGS loadClock) = newLog kernelTick # MOCK_LOGS loadClock
   \<and> kernelLogsStep ClearLogs (MOCK_LOGS loadClock) = []
   \<and> step (Tick anomalyTick) (initialConsole quietRandom) = Inr degradedConsole
   \<and> tl (logs degradedConsole) = take 14 (logs (initialConsole quietRandom))
   \<and> length (logs degradedConsole) = 1"
  using log_operations[of "NewLog kernelTick" "MOCK_LOGS loadClock" "Tick anomalyTick"
          "initialConsole quietRandom" degradedConsole]
        log_operations[of ClearLogs "MOCK_LOGS loadClock" "Tick anomalyTick"
          "initialConsole quietRandom" degradedConsole]
        tick_anomalyTick degradedConsole_logs MOCK_LOGS_length[of loadClock]
  by (simp add: initialConsole_def)

text \<open>
  C7 as stated fails in the full log view: the clear button removes every entry, the
  newest included, from a log far below its capacity.
\<close>

theorem log_cleared_counterexample:
  "length (kernelLogsTick kernelTick (MOCK_LOGS loadClock)) = 11
   \<and> kernelLogsStep ClearLogs (kernelLogsTick kernelTick (MOCK_LOGS loadClock)) = []
   \<and> kernelLogsRun (MOCK_LOGS loadClock) [NewLog kernelTick, ClearLogs] = []"
  by (simp add: kernelLogsTick_def clearLogs_def MOCK_LOGS_length)

text \<open>
  C8 (amended). The kurtosis indicator is a function of the latest reading alone, and it
  is strict: the reading is marked elevated exactly when its kurtosis is greater than 4,
  so a kurtosis of exactly 4.0 is shown as normal; a value on the boundary belongs to the
  lower band. The two trend arrows are strict in the same way (vibration above 25,
  temperature above 50). A missing reading or a missing field is never elevated.
\<close>

theorem kurtosis_threshold_strict:
  "kurtosisElevated lr = (\<exists>r k. lr = Some r \<and> vibration_kurtosis r = Some k \<and> 4 < k)
   \<and> kurtosisClass lr = (if kurtosisElevated lr then ''text-red-500'' else ''text-[#3FB950]'')
   \<and> (vibration_kurtosis r = Some 4 \<longrightarrow> \<not> kurtosisElevated (Some r))
   \<and> (vibration_kurtosis r = vibration_kurtosis r'
        \<longrightarrow> kurtosisElevated (Some r) = kurtosisElevated (Some r'))
   \<and> (vibrationTrend lr = ''up'') = (\<exists>r v. lr = Some r \<and> vibration_rms r = Some v \<and> 25 < v)
   \<and> (temperatureTrend lr = ''up'') = (\<exists>r t. lr = Some r \<and> temperature r = Some t \<and> 50 < t)"
  by (auto simp: kurtosisElevated_def kurtosisClass_def vibrationTrend_def temperatureTrend_def
        split: option.splits)

theorem kurtosis_threshold_strict_witness:
  "vibration_kurtosis boundaryReading = Some 4
   \<and> \<not> kurtosisElevated (Some boundaryReading)
   \<and> kurtosisElevated (Some (boundaryReading\<lparr>vibration_kurtosis := Some (17/4)\<rparr>))
   \<and> kurtosisClass (Some (boundaryReading\<lparr>vibration_kurtosis := Some (17/4)\<rparr>)) = ''text-red-500''
   \<and> vibrationTrend (Some boundaryReading) = ''stable''
   \<and> temperatureTrend (Some boundaryReading) = ''stable''"
proof -
  define hi where "hi = boundaryReading\<lparr>vibration_kurtosis := Some (17/4)\<rparr>"
  note B = kurtosis_threshold_strict[of "Some boundaryReading" boundaryReading boundaryReading]
  note H = kurtosis_threshold_strict[of "Some hi" boundaryReading boundaryReading]
  have k4: "vibration_kurtosis boundaryReading = Some 4" by (simp add: boundaryReading_def)
  have n: "\<not> kurtosisElevated (Some boundaryReading)"
    by (rule B[THEN conjunct2, THEN conjunct2, THEN conjunct1, THEN mp, OF k4])
  have "\<exists>r k. Some hi = Some r \<and> vibration_kurtosis r = Some k \<and> 4 < k"
    by (intro exI[of _ hi] exI[of _ "17/4"]) (simp add: hi_def)
  then have e: "kurtosisElevated (Some hi)" using H[THEN conjunct1] by blast
  then have c: "kurtosisClass (Some hi) = ''text-red-500''"
    using H[THEN conjunct2, THEN conjunct1] by simp
  have t: "vibrationTrend (Some boundaryReading) = ''stable''"
    "temperatureTrend (Some boundaryReading) = ''stable''"
    by (simp_all add: boundaryReading_def vibrationTrend_def temperatureTrend_def)
  show ?thesis using k4 n e c t unfolding hi_def by blast
qed

text \<open>
  C8 as stated fails on the boundary: a reading whose kurtosis is exactly 4 is not
  marked elevated and is drawn in the colour of a normal value.
\<close>

theorem kurtosis_boundary_counterexample:
  "vibration_kurtosis boundaryReading = Some 4
   \<and> \<not> kurtosisElevated (Some boundaryReading)
   \<and> kurtosisClass (Some boundaryReading) = ''text-[#3FB950]''"
  by (simp add: boundaryReading_def kurtosisElevated_def kurtosisClass_def)

end
